theory Spec2Isabelle
  imports Main
begin

section \<open>Data model of \<open>OptParser.hpp\<close>\<close>

text \<open>
  \<open>enum class OptType { value, trigger }\<close>. The constructors carry a prefix because
  \<open>value\<close> is an Isar keyword.
\<close>

datatype OptType = OptValue | OptTrigger

text \<open>\<open>struct OptPar\<close>: one registered option.\<close>

record OptPar =
  shortName :: string
  longName :: string
  defaultVal :: string
  helpMessage :: string
  optType :: OptType
  optional :: bool

text \<open>\<open>struct OptRes\<close>: the outcome of a parse for one option (field \<open>value\<close> of the source).\<close>

record OptRes =
  rvalue :: string
  present :: bool

text \<open>
  The three data members of \<open>class OptParser\<close>: \<open>opt_\<close>, \<open>result_\<close> and \<open>arg_\<close>.
  A default-constructed parser has all three empty.
\<close>

record OptParser =
  opt :: "OptPar list"
  result :: "OptRes list"
  arg :: "string list"

definition newParser :: OptParser where
  "newParser = \<lparr>opt = [], result = [], arg = []\<rparr>"

text \<open>
  The exceptions thrown by the class, with their messages: \<open>std::logic_error\<close>
  (duplicate option), \<open>std::runtime_error\<close> (options not parsed) and
  \<open>std::out_of_range\<close> (no option with that name).
\<close>

datatype error = LogicError string | RuntimeError string | OutOfRange string

text \<open>
  \<open>std::find_if\<close> over a vector, as the position of the returned iterator: the index
  of the first element satisfying the predicate, or the size of the vector (the
  \<open>end()\<close> iterator) when there is none.
\<close>

fun find_if :: "('a \<Rightarrow> bool) \<Rightarrow> 'a list \<Rightarrow> nat" where
  "find_if P [] = 0"
| "find_if P (x # xs) = (if P x then 0 else Suc (find_if P xs))"

section \<open>The token pattern\<close>

text \<open>
  \<open>optRegex = "(-([a-zA-Z])(.+)?)|(--([a-zA-Z_-]+)=?(.+)?)"\<close>, an ECMAScript pattern
  used with \<open>regex_match\<close> (the whole token must match). The pattern is embedded with
  its backtracking semantics: a matcher maps the remaining input to the list of
  ways it can match a prefix of it, each with what it captured and the input left,
  in the order in which the backtracking engine tries them (greedy quantifiers try
  the longer match first, an alternation tries its left branch first). The match
  reported is the first one that leaves no input.
\<close>

type_synonym 'a matcher = "string \<Rightarrow> ('a \<times> string) list"

text \<open>The character classes \<open>[a-zA-Z]\<close> and \<open>[a-zA-Z_-]\<close>.\<close>

definition isAlpha :: "char \<Rightarrow> bool" where
  "isAlpha c = (c \<in> set ''abcdefghijklmnopqrstuvwxyzABCDEFGHIJKLMNOPQRSTUVWXYZ'')"

definition isNameChar :: "char \<Rightarrow> bool" where
  "isNameChar c = (isAlpha c \<or> c = CHR ''_'' \<or> c = CHR ''-'')"

text \<open>The ECMAScript \<open>.\<close>: any character except the line terminators LF and CR.\<close>

definition isDot :: "char \<Rightarrow> bool" where
  "isDot c = (c \<noteq> CHR 0x0A \<and> c \<noteq> CHR 0x0D)"

text \<open>One literal character; one character of a class.\<close>

fun re_chr :: "char \<Rightarrow> unit matcher" where
  "re_chr c [] = []"
| "re_chr c (x # r) = (if x = c then [((), r)] else [])"

fun re_cls :: "(char \<Rightarrow> bool) \<Rightarrow> char matcher" where
  "re_cls P [] = []"
| "re_cls P (x # r) = (if P x then [(x, r)] else [])"

text \<open>\<open>[...]+\<close>, greedy: every non-empty run of class characters, the longest first.\<close>

fun re_plus :: "(char \<Rightarrow> bool) \<Rightarrow> string matcher" where
  "re_plus P [] = []"
| "re_plus P (x # r) =
     (if P x then map (\<lambda>(m, r'). (x # m, r')) (re_plus P r) @ [([x], r)] else [])"

text \<open>\<open>m?\<close>, greedy: first the matches of \<open>m\<close>, then the empty match (no capture).\<close>

definition re_opt :: "'a matcher \<Rightarrow> 'a option matcher" where
  "re_opt m s = map (\<lambda>(v, r). (Some v, r)) (m s) @ [(None, s)]"

text \<open>Concatenation, passing the capture on; the end of a branch; alternation.\<close>

definition re_seq :: "'a matcher \<Rightarrow> ('a \<Rightarrow> 'b matcher) \<Rightarrow> 'b matcher" where
  "re_seq m f s = concat (map (\<lambda>(v, r). f v r) (m s))"

definition re_ret :: "'a \<Rightarrow> 'a matcher" where
  "re_ret v s = [(v, s)]"

definition re_alt :: "'a matcher \<Rightarrow> 'a matcher \<Rightarrow> 'a matcher" where
  "re_alt m1 m2 s = m1 s @ m2 s"

text \<open>
  The sub-matches \<open>parse\<close> reads from the \<open>std::smatch\<close>. \<open>ShortMatch n v\<close>: group 1
  matched, \<open>sm[2] = n\<close>, and \<open>sm[3]\<close> is \<open>v\<close> (\<open>None\<close>: \<open>sm[3].matched\<close> is false).
  \<open>LongMatch n v\<close>: group 4 matched, \<open>sm[5] = n\<close>, and \<open>sm[6]\<close> is \<open>v\<close>.
\<close>

datatype smatch = ShortMatch string "string option" | LongMatch string "string option"

definition shortRegex :: "smatch matcher" where
  "shortRegex =
     re_seq (re_chr CHR ''-'') (\<lambda>_.
     re_seq (re_cls isAlpha) (\<lambda>c.
     re_seq (re_opt (re_plus isDot)) (\<lambda>v.
     re_ret (ShortMatch [c] v))))"

definition longRegex :: "smatch matcher" where
  "longRegex =
     re_seq (re_chr CHR ''-'') (\<lambda>_.
     re_seq (re_chr CHR ''-'') (\<lambda>_.
     re_seq (re_plus isNameChar) (\<lambda>n.
     re_seq (re_opt (re_chr CHR ''='')) (\<lambda>_.
     re_seq (re_opt (re_plus isDot)) (\<lambda>v.
     re_ret (LongMatch n v))))))"

definition optRegex :: "smatch matcher" where
  "optRegex = re_alt shortRegex longRegex"

text \<open>The first of a list of matches that leaves no input, if there is one.\<close>

definition firstFull :: "('a \<times> string) list \<Rightarrow> 'a option" where
  "firstFull ms =
     (case filter (\<lambda>(v, r). r = []) ms of
        [] \<Rightarrow> None
      | (v, r) # _ \<Rightarrow> Some v)"

text \<open>\<open>regex_match(s, sm, optRegex_)\<close>: \<open>None\<close> when it returns false.\<close>

definition regex_match :: "string \<Rightarrow> smatch option" where
  "regex_match s = firstFull (optRegex s)"

section \<open>Registration\<close>

text \<open>
  The predicate of the \<open>find_if\<close> in \<open>addOption\<close>: \<open>p\<close> collides with the new option
  \<open>par\<close> on a non-empty short name or on a non-empty long name.
\<close>

definition collides :: "OptPar \<Rightarrow> OptPar \<Rightarrow> bool" where
  "collides par p =
     (let match = False;
          match = (match \<or> (shortName par = shortName p \<and> shortName par \<noteq> []));
          match = (match \<or> (longName par = longName p \<and> longName par \<noteq> []))
      in match)"

text \<open>The name put into the duplicate-option message, built from the option found.\<close>

definition dupName :: "OptPar \<Rightarrow> string" where
  "dupName it =
     (let s = [];
          s = (if shortName it \<noteq> [] then s @ ''-'' @ shortName it else s);
          s = (if s \<noteq> [] then s @ ''/'' else s);
          s = (if longName it \<noteq> [] then s @ ''--'' @ longName it else s)
      in s)"

text \<open>
  \<open>addOption(shortName, longName, type, optional, helpMessage, defaultVal)\<close>: throws
  \<open>std::logic_error\<close> when a registered option collides, appends the option otherwise.
\<close>

definition addOption ::
  "OptParser \<Rightarrow> string \<Rightarrow> string \<Rightarrow> OptType \<Rightarrow> bool \<Rightarrow> string \<Rightarrow> string \<Rightarrow> error + OptParser" where
  "addOption p sn ln ty opl help dflt =
     (let par = \<lparr>shortName = sn, longName = ln, defaultVal = dflt, helpMessage = help,
                 optType = ty, optional = opl\<rparr>;
          it = find_if (collides par) (opt p)
      in if it \<noteq> length (opt p)
         then Inl (LogicError (''duplicate option '' @ dupName (opt p ! it)))
         else Inr (p\<lparr>opt := opt p @ [par]\<rparr>))"

text \<open>A sequence of registrations, stopping at the first exception.\<close>

fun addOptions :: "OptParser \<Rightarrow> OptPar list \<Rightarrow> error + OptParser" where
  "addOptions p [] = Inr p"
| "addOptions p (x # xs) =
     (case addOption p (shortName x) (longName x) (optType x) (optional x)
             (helpMessage x) (defaultVal x) of
        Inl e \<Rightarrow> Inl e
      | Inr p' \<Rightarrow> addOptions p' xs)"

text \<open>
  The invariant of a registry that \<open>addOption\<close> maintains: no two options share a
  non-empty short name, and no two share a non-empty long name.
\<close>

definition distinctNames :: "OptPar list \<Rightarrow> bool" where
  "distinctNames os =
     (distinct (filter (\<lambda>s. s \<noteq> []) (map shortName os)) \<and>
      distinct (filter (\<lambda>s. s \<noteq> []) (map longName os)))"

section \<open>Queries\<close>

text \<open>\<open>optIndex\<close>: the index of the first option with that short or long name, or -1.\<close>

definition optIndex :: "OptParser \<Rightarrow> string \<Rightarrow> int" where
  "optIndex p name =
     (let it = find_if (\<lambda>q. shortName q = name \<or> longName q = name) (opt p)
      in if it \<noteq> length (opt p) then int it else - 1)"

definition notParsed :: error where
  "notParsed = RuntimeError ''options not parsed''"

definition noOption :: "string \<Rightarrow> error" where
  "noOption name = OutOfRange (''no option with name '' @ [CHR 0x27] @ name @ [CHR 0x27])"

definition gotOption :: "OptParser \<Rightarrow> string \<Rightarrow> error + bool" where
  "gotOption p name =
     (let i = optIndex p name
      in if length (result p) \<noteq> length (opt p) then Inl notParsed
         else if i \<ge> 0 then Inr (present (result p ! nat i))
         else Inl (noOption name))"

text \<open>
  \<open>optionValue<T>\<close> at its default \<open>T = std::string\<close>, where \<open>strTo<std::string>\<close> is the
  identity.
\<close>

definition strTo :: "string \<Rightarrow> string" where
  "strTo str = str"

definition optionValue :: "OptParser \<Rightarrow> string \<Rightarrow> error + string" where
  "optionValue p name =
     (let i = optIndex p name
      in if length (result p) \<noteq> length (opt p) then Inl notParsed
         else if i \<ge> 0 then Inr (strTo (rvalue (result p ! nat i)))
         else Inl (noOption name))"

definition getArgs :: "OptParser \<Rightarrow> string list" where
  "getArgs p = arg p"

section \<open>Option names and the option list\<close>

text \<open>\<open>optName\<close>: the name of an option in messages, built up as in the source.\<close>

definition optName :: "OptPar \<Rightarrow> string" where
  "optName op =
     (let res = [];
          res = (if shortName op \<noteq> []
                 then (let res = res @ ''-'' @ shortName op
                       in if longName op \<noteq> [] then res @ ''/'' else res)
                 else res);
          res = (if longName op \<noteq> []
                 then (let res = res @ ''--'' @ longName op
                       in if optType op = OptValue then res @ ''='' else res)
                 else res)
      in res)"

text \<open>
  \<open>out << std::setw(20) << s\<close> on a stream in its initial formatting state (fill
  character space, padding on the left): a string shorter than the width is padded,
  a longer one is written whole.
\<close>

definition setw :: "nat \<Rightarrow> string \<Rightarrow> string" where
  "setw n s = replicate (n - length s) CHR '' '' @ s"

text \<open>One iteration of the loop of \<open>operator<<\<close>; \<open>std::endl\<close> writes a line feed.\<close>

definition printOption :: "string \<Rightarrow> OptPar \<Rightarrow> string" where
  "printOption out ob =
     (let out = out @ setw 20 (optName ob);
          out = out @ '': '' @ helpMessage ob;
          out = (if defaultVal ob \<noteq> []
                 then out @ '' (default: '' @ defaultVal ob @ '')'' else out);
          out = out @ [CHR 0x0A]
      in out)"

text \<open>\<open>operator<<(out, parser)\<close>: the stream is the text written to it so far.\<close>

fun printOptions :: "string \<Rightarrow> OptPar list \<Rightarrow> string" where
  "printOptions out [] = out"
| "printOptions out (ob # os) = printOptions (printOption out ob) os"

definition print :: "string \<Rightarrow> OptParser \<Rightarrow> string" where
  "print out parser = printOptions out (opt parser)"

text \<open>
  The two options registered by \<open>tests/print-opt.cpp\<close>, and the parser it prints:
  \<open>addOption("a", "long-a", OptType::value, false, "option a")\<close> and
  \<open>addOption("b", "long-b", OptType::trigger, false, "option b")\<close>.
\<close>

definition optA :: OptPar where
  "optA = \<lparr>shortName = ''a'', longName = ''long-a'', defaultVal = [], helpMessage = ''option a'',
           optType = OptValue, optional = False\<rparr>"

definition optB :: OptPar where
  "optB = \<lparr>shortName = ''b'', longName = ''long-b'', defaultVal = [], helpMessage = ''option b'',
           optType = OptTrigger, optional = False\<rparr>"

definition testParser :: OptParser where
  "testParser = \<lparr>opt = [optA, optB], result = [], arg = []\<rparr>"

section \<open>Parsing\<close>

text \<open>
  The lines \<open>parse\<close> writes to \<open>std::cerr\<close>, one constructor for each message:
  \<^item> \<open>ExpectedValueGotOption n t\<close>: "warning: expected value for option n, got option 't' instead";
  \<^item> \<open>UnknownOption t\<close>: "warning: unknown option 't'";
  \<^item> \<open>ExpectedValue n\<close>: "warning: expected value for option n";
  \<^item> \<open>MandatoryMissing n\<close>: "warning: mandatory option n is missing".
\<close>

datatype warning =
    ExpectedValueGotOption string string
  | UnknownOption string
  | ExpectedValue string
  | MandatoryMissing string

text \<open>
  What \<open>parse\<close> updates while it runs: the members \<open>result_\<close> and \<open>arg_\<close>, the locals
  \<open>expectVal\<close> (an option index, or -1) and \<open>isCorrect\<close>, and the error stream.
\<close>

record pstate =
  st_result :: "OptRes list"
  st_arg :: "string list"
  expectVal :: int
  isCorrect :: bool
  cerr :: "warning list"

text \<open>
  The queue of tokens: \<open>argv[1]\<close> to \<open>argv[argc - 1]\<close>. The caller passes an array of
  at least \<open>argc\<close> strings (reading beyond it is undefined in the source); then the
  queue is what follows the program name, up to \<open>argc - 1\<close> tokens.
\<close>

definition argQueue :: "int \<Rightarrow> string list \<Rightarrow> string list" where
  "argQueue argc argv = map (\<lambda>i. argv ! i) [1..<nat argc]"

text \<open>
  \<open>result_.clear(); result_.resize(opt_.size())\<close> gives every entry the empty string
  and \<open>present = false\<close>; the loop that follows copies the default values.
\<close>

definition initResults :: "OptPar list \<Rightarrow> OptRes list" where
  "initResults opts =
     foldl (\<lambda>r i. r[i := (r ! i)\<lparr>rvalue := defaultVal (opts ! i)\<rparr>])
       (replicate (length opts) \<lparr>rvalue = [], present = False\<rparr>) [0..<length opts]"

definition initState :: "OptPar list \<Rightarrow> pstate" where
  "initState opts =
     \<lparr>st_result = initResults opts, st_arg = [], expectVal = - 1, isCorrect = True, cerr = []\<rparr>"

text \<open>
  The body shared by the short-option and the long-option branch, which differ in
  the name field compared (\<open>field\<close>) only: \<open>n\<close> is the name matched (\<open>sm[2]\<close> or
  \<open>sm[5]\<close>), \<open>v\<close> the inline value (\<open>sm[3]\<close> or \<open>sm[6]\<close>), \<open>tok\<close> the token.
\<close>

definition foundOption ::
  "OptPar list \<Rightarrow> (OptPar \<Rightarrow> string) \<Rightarrow> string \<Rightarrow> string option \<Rightarrow> string \<Rightarrow> pstate \<Rightarrow> pstate" where
  "foundOption opts field n v tok st =
     (let i = find_if (\<lambda>p. field p = n) opts
      in if i \<noteq> length opts
         then (let r = (st_result st)[i := (st_result st ! i)\<lparr>present := True\<rparr>]
               in if optType (opts ! i) = OptValue
                  then (case v of
                          Some s \<Rightarrow> st\<lparr>st_result := r[i := (r ! i)\<lparr>rvalue := s\<rparr>]\<rparr>
                        | None \<Rightarrow> st\<lparr>st_result := r, expectVal := int i\<rparr>)
                  else st\<lparr>st_result := r\<rparr>)
         else st\<lparr>cerr := cerr st @ [UnknownOption tok]\<rparr>)"

text \<open>One iteration of the \<open>while\<close> loop, on the token at the front of the queue.\<close>

definition parseToken :: "OptPar list \<Rightarrow> pstate \<Rightarrow> string \<Rightarrow> pstate" where
  "parseToken opts st tok =
     (case regex_match tok of
        Some sm \<Rightarrow>
          (let st1 = (if expectVal st \<ge> 0
                      then st\<lparr>cerr := cerr st @
                                [ExpectedValueGotOption (optName (opts ! nat (expectVal st))) tok],
                              expectVal := - 1, isCorrect := False\<rparr>
                      else st)
           in case sm of
                ShortMatch n v \<Rightarrow> foundOption opts shortName n v tok st1
              | LongMatch n v \<Rightarrow> foundOption opts longName n v tok st1)
      | None \<Rightarrow>
          (if expectVal st \<ge> 0
           then st\<lparr>st_result := (st_result st)[nat (expectVal st) :=
                                  (st_result st ! nat (expectVal st))\<lparr>rvalue := tok\<rparr>],
                   expectVal := - 1\<rparr>
           else st\<lparr>st_arg := st_arg st @ [tok]\<rparr>))"

text \<open>The \<open>while\<close> loop: it pops one token in each iteration, until the queue is empty.\<close>

fun parseLoop :: "OptPar list \<Rightarrow> pstate \<Rightarrow> string list \<Rightarrow> pstate" where
  "parseLoop opts st [] = st"
| "parseLoop opts st (tok # q) = parseLoop opts (parseToken opts st tok) q"

text \<open>After the loop: a value still expected.\<close>

definition checkExpect :: "OptPar list \<Rightarrow> pstate \<Rightarrow> pstate" where
  "checkExpect opts st =
     (if expectVal st \<ge> 0
      then st\<lparr>cerr := cerr st @ [ExpectedValue (optName (opts ! nat (expectVal st)))],
              expectVal := - 1, isCorrect := False\<rparr>
      else st)"

text \<open>After the loop: the mandatory options, for \<open>i\<close> from 0 to \<open>opt_.size() - 1\<close>.\<close>

definition checkMandatory :: "OptPar list \<Rightarrow> pstate \<Rightarrow> pstate" where
  "checkMandatory opts st =
     foldl (\<lambda>s i. if \<not> optional (opts ! i) \<and> \<not> present (st_result s ! i)
                  then s\<lparr>cerr := cerr s @ [MandatoryMissing (optName (opts ! i))],
                         isCorrect := False\<rparr>
                  else s) st [0..<length opts]"

text \<open>The state in which \<open>parse\<close> returns.\<close>

definition parseState :: "OptPar list \<Rightarrow> string list \<Rightarrow> pstate" where
  "parseState opts q = checkMandatory opts (checkExpect opts (parseLoop opts (initState opts) q))"

text \<open>
  \<open>parse(argc, argv)\<close>: the value returned, the parser as it is afterwards, and the
  lines written to the error stream.
\<close>

definition parse :: "OptParser \<Rightarrow> int \<Rightarrow> string list \<Rightarrow> bool \<times> OptParser \<times> warning list" where
  "parse p argc argv =
     (let st = parseState (opt p) (argQueue argc argv)
      in (isCorrect st, p\<lparr>result := st_result st, arg := st_arg st\<rparr>, cerr st))"

section \<open>Notions used to state the properties of \<open>parse\<close>\<close>

text \<open>The warnings that tell of an unknown option.\<close>

fun isUnknownOption :: "warning \<Rightarrow> bool" where
  "isUnknownOption (UnknownOption t) = True"
| "isUnknownOption w = False"

text \<open>
  The registered option a token is matched with by \<open>parse\<close>: the token matches the
  pattern, and the \<open>find_if\<close> of its branch (by short name for group 1, by long name
  for group 4) finds an option.
\<close>

definition matchedIndex :: "OptPar list \<Rightarrow> string \<Rightarrow> nat option" where
  "matchedIndex opts tok =
     (case regex_match tok of
        None \<Rightarrow> None
      | Some (ShortMatch n v) \<Rightarrow>
          (let i = find_if (\<lambda>p. shortName p = n) opts in if i \<noteq> length opts then Some i else None)
      | Some (LongMatch n v) \<Rightarrow>
          (let i = find_if (\<lambda>p. longName p = n) opts in if i \<noteq> length opts then Some i else None))"

text \<open>The inline value of a token: \<open>sm[3]\<close> or \<open>sm[6]\<close>, when that group matched.\<close>

definition inlineValue :: "string \<Rightarrow> string option" where
  "inlineValue tok =
     (case regex_match tok of
        None \<Rightarrow> None
      | Some (ShortMatch n v) \<Rightarrow> v
      | Some (LongMatch n v) \<Rightarrow> v)"

section \<open>Properties of \<open>find_if\<close> and of the initial result store\<close>

lemma find_if_le: "find_if P xs \<le> length xs"
  by (induction xs) auto

lemma find_if_end: "find_if P xs = length xs \<longleftrightarrow> (\<forall>x\<in>set xs. \<not> P x)"
proof (induction xs)
  case Nil
  show ?case by simp
next
  case (Cons x xs)
  then show ?case by auto
qed

lemma find_if_found:
  "find_if P xs \<noteq> length xs \<Longrightarrow> find_if P xs < length xs \<and> P (xs ! find_if P xs)"
  by (induction xs) auto

lemma find_if_before: "j < find_if P xs \<Longrightarrow> \<not> P (xs ! j)"
proof (induction xs arbitrary: j)
  case Nil
  then show ?case by simp
next
  case (Cons x xs)
  then show ?case by (cases j) (auto split: if_splits)
qed

lemma find_if_first:
  "i < length xs \<Longrightarrow> P (xs ! i) \<Longrightarrow> (\<forall>j<i. \<not> P (xs ! j)) \<Longrightarrow> find_if P xs = i"
proof (induction xs arbitrary: i)
  case Nil
  then show ?case by simp
next
  case (Cons x xs)
  show ?case
  proof (cases i)
    case 0
    with Cons.prems show ?thesis by simp
  next
    case (Suc k)
    with Cons.prems have "\<not> P x" by auto
    moreover have "find_if P xs = k"
      using Cons.prems Suc by (intro Cons.IH) auto
    ultimately show ?thesis using Suc by simp
  qed
qed

lemma find_if_append_miss:
  "(\<forall>x\<in>set xs. \<not> P x) \<Longrightarrow> find_if P (xs @ ys) = length xs + find_if P ys"
  by (induction xs) auto

lemma initResults_step:
  "k \<le> length opts \<Longrightarrow>
   foldl (\<lambda>r i. r[i := (r ! i)\<lparr>rvalue := defaultVal (opts ! i)\<rparr>])
     (replicate (length opts) \<lparr>rvalue = [], present = False\<rparr>) [0..<k]
   = map (\<lambda>ob. \<lparr>rvalue = defaultVal ob, present = False\<rparr>) (take k opts)
     @ replicate (length opts - k) \<lparr>rvalue = [], present = False\<rparr>"
proof (induction k)
  case 0
  show ?case by simp
next
  case (Suc k)
  then have k: "k < length opts" by simp
  have rep: "replicate (length opts - k) \<lparr>rvalue = [], present = False\<rparr>
      = \<lparr>rvalue = [], present = False\<rparr> # replicate (length opts - Suc k) \<lparr>rvalue = [], present = False\<rparr>"
    using k by (metis Suc_diff_Suc replicate_Suc)
  show ?case using Suc.IH k
    by (simp add: rep take_Suc_conv_app_nth list_update_append nth_append)
qed

lemma initResults_eq:
  "initResults opts = map (\<lambda>ob. \<lparr>rvalue = defaultVal ob, present = False\<rparr>) opts"
  using initResults_step [of "length opts" opts] by (simp add: initResults_def)

lemma parse_opt: "opt (fst (snd (parse p argc argv))) = opt p"
  by (simp add: parse_def Let_def)

section \<open>Registration of an option without a name\<close>

text \<open>
  Claim C3, as the code has it: \<open>addOption\<close> does not reject an option whose short
  name and long name are both empty. Such an option collides with no registered
  option (only non-empty names are compared), so it is appended to the registry,
  whatever the registry holds already.
\<close>

theorem addOption_nameless_accepted:
  "addOption p [] [] ty opl help dflt =
     Inr (p\<lparr>opt := opt p @ [\<lparr>shortName = [], longName = [], defaultVal = dflt,
                              helpMessage = help, optType = ty, optional = opl\<rparr>]\<rparr>)"
proof -
  have "find_if (collides \<lparr>shortName = [], longName = [], defaultVal = dflt,
          helpMessage = help, optType = ty, optional = opl\<rparr>) (opt p) = length (opt p)"
    by (simp add: find_if_end collides_def)
  then show ?thesis by (simp add: addOption_def)
qed

text \<open>
  Claim C3 as stated fails: registering a trigger with two empty names on a new parser
  throws nothing and yields a registry of one option.
\<close>

theorem addOption_nameless_counterexample:
  "addOption newParser [] [] OptTrigger False [] [] =
     Inr \<lparr>opt = [\<lparr>shortName = [], longName = [], defaultVal = [], helpMessage = [],
                  optType = OptTrigger, optional = False\<rparr>], result = [], arg = []\<rparr>"
  by (simp add: addOption_def newParser_def)

section \<open>The token pattern in closed form\<close>

lemma firstFull_Nil: "firstFull [] = None"
  by (simp add: firstFull_def)

lemma firstFull_Cons: "firstFull ((v, r) # ms) = (if r = [] then Some v else firstFull ms)"
  by (simp add: firstFull_def)

lemma firstFull_append:
  "firstFull (xs @ ys) = (case firstFull xs of Some v \<Rightarrow> Some v | None \<Rightarrow> firstFull ys)"
  by (induction xs) (auto simp: firstFull_Nil firstFull_Cons)

lemma firstFull_None: "firstFull ms = None \<longleftrightarrow> (\<forall>(v, r)\<in>set ms. r \<noteq> [])"
proof (induction ms)
  case Nil
  show ?case by (simp add: firstFull_Nil)
next
  case (Cons a ms)
  obtain v r where a: "a = (v, r)" by (cases a)
  show ?case using Cons.IH by (simp add: a firstFull_Cons)
qed

lemma firstFull_concat_None:
  "(\<forall>x\<in>set xs. firstFull (f x) = None) \<Longrightarrow> firstFull (concat (map f xs)) = None"
  by (induction xs) (auto simp: firstFull_Nil firstFull_append)

lemma re_plus_mem:
  "(m, r) \<in> set (re_plus P s) \<Longrightarrow> s = m @ r \<and> m \<noteq> [] \<and> list_all P m"
proof (induction s arbitrary: m r)
  case Nil
  then show ?case by simp
next
  case (Cons x s)
  then show ?case by (auto split: if_splits)
qed

lemma re_plus_no_run: "takeWhile P s = [] \<Longrightarrow> re_plus P s = []"
  by (cases s) (auto split: if_splits)

lemma re_plus_hd:
  "takeWhile P s \<noteq> [] \<Longrightarrow> \<exists>ms. re_plus P s = (takeWhile P s, dropWhile P s) # ms"
proof (induction s)
  case Nil
  then show ?case by simp
next
  case (Cons x s)
  then have x: "P x" by (auto split: if_splits)
  show ?case
  proof (cases "takeWhile P s = []")
    case True
    then have "re_plus P s = []" by (rule re_plus_no_run)
    moreover from True have "dropWhile P s = s"
      by (cases s) (auto split: if_splits)
    ultimately show ?thesis using x True by simp
  next
    case False
    then obtain ms where "re_plus P s = (takeWhile P s, dropWhile P s) # ms"
      using Cons.IH by blast
    then show ?thesis using x by simp
  qed
qed

text \<open>The optional group \<open>(.+)?\<close> at the end of either branch.\<close>

lemma firstFull_optDot:
  "firstFull (re_seq (re_opt (re_plus isDot)) (\<lambda>v. re_ret (f v)) r) =
     (if r = [] then Some (f None) else if list_all isDot r then Some (f (Some r)) else None)"
proof (cases "r = []")
  case True
  then show ?thesis by (simp add: re_seq_def re_opt_def re_ret_def firstFull_Cons)
next
  case False
  note ne = False
  show ?thesis
  proof (cases "list_all isDot r")
    case True
    then have "takeWhile isDot r = r" "dropWhile isDot r = []"
      by (simp_all add: list_all_iff)
    then obtain ms where "re_plus isDot r = (r, []) # ms"
      using re_plus_hd [of isDot r] ne by fastforce
    then show ?thesis using ne True
      by (simp add: re_seq_def re_opt_def re_ret_def firstFull_Cons)
  next
    case False
    have "firstFull (concat (map (\<lambda>(v, r). re_ret (f v) r) (re_opt (re_plus isDot) r))) = None"
    proof (rule firstFull_concat_None, clarify)
      fix v r' assume "(v, r') \<in> set (re_opt (re_plus isDot) r)"
      then have "r' \<noteq> []" using ne False
        by (auto simp: re_opt_def dest!: re_plus_mem)
      then show "firstFull (re_ret (f v) r') = None"
        by (simp add: re_ret_def firstFull_Cons firstFull_Nil)
    qed
    then show ?thesis using ne False by (simp add: re_seq_def)
  qed
qed


text \<open>The rest of the long branch: \<open>=?(.+)?\<close>, and then the name before it.\<close>

lemma isAlpha_isDot: "isAlpha c \<Longrightarrow> isDot c"
  by (auto simp: isAlpha_def isDot_def)

lemma isAlpha_not_dash: "isAlpha c \<Longrightarrow> c \<noteq> CHR ''-''"
  by (auto simp: isAlpha_def)

lemma isNameChar_isDot: "isNameChar c \<Longrightarrow> isDot c"
  using isAlpha_isDot by (auto simp: isNameChar_def isDot_def)

lemma firstFull_tail:
  "firstFull (re_seq (re_opt (re_chr CHR ''='')) (\<lambda>_.
              re_seq (re_opt (re_plus isDot)) (\<lambda>v. re_ret (f v))) r) =
     (if list_all isDot r
      then Some (f (let txt = (case r of [] \<Rightarrow> [] | c # r' \<Rightarrow> if c = CHR ''='' then r' else r)
                    in if txt = [] then None else Some txt))
      else None)"
proof (cases r)
  case Nil
  then show ?thesis
    by (simp add: re_seq_def [of "re_opt (re_chr CHR ''='')"] re_opt_def [of "re_chr CHR ''=''"]
          firstFull_optDot)
next
  case (Cons c r')
  show ?thesis
  proof (cases "c = CHR ''=''")
    case True
    then show ?thesis using Cons
      by (simp add: re_seq_def [of "re_opt (re_chr CHR ''='')"] re_opt_def [of "re_chr CHR ''=''"]
            firstFull_optDot firstFull_append isDot_def)
  next
    case False
    then show ?thesis using Cons
      by (simp add: re_seq_def [of "re_opt (re_chr CHR ''='')"] re_opt_def [of "re_chr CHR ''=''"]
            firstFull_optDot)
  qed
qed

lemma firstFull_name:
  "firstFull (re_seq (re_plus isNameChar) (\<lambda>n.
              re_seq (re_opt (re_chr CHR ''='')) (\<lambda>_.
              re_seq (re_opt (re_plus isDot)) (\<lambda>v. re_ret (f n v)))) s) =
     (if takeWhile isNameChar s \<noteq> [] \<and> list_all isDot (dropWhile isNameChar s)
      then Some (f (takeWhile isNameChar s)
                   (let r = dropWhile isNameChar s;
                        txt = (case r of [] \<Rightarrow> [] | c # r' \<Rightarrow> if c = CHR ''='' then r' else r)
                    in if txt = [] then None else Some txt))
      else None)"
  (is "firstFull (re_seq _ ?K s) = _")
proof (cases "takeWhile isNameChar s = []")
  case True
  then show ?thesis
    by (simp add: re_seq_def [of "re_plus isNameChar"] re_plus_no_run firstFull_Nil)
next
  case False
  then obtain ms where ms: "re_plus isNameChar s = (takeWhile isNameChar s, dropWhile isNameChar s) # ms"
    using re_plus_hd by blast
  show ?thesis
  proof (cases "list_all isDot (dropWhile isNameChar s)")
    case True
    then show ?thesis using False ms
      by (simp add: re_seq_def [of "re_plus isNameChar"] firstFull_append firstFull_tail Let_def)
  next
    case nd: False
    then obtain c where c: "c \<in> set (dropWhile isNameChar s)" "\<not> isDot c"
      by (auto simp: list_all_iff)
    have "firstFull (concat (map (\<lambda>(n, r). ?K n r) (re_plus isNameChar s))) = None"
    proof (rule firstFull_concat_None, clarify)
      fix m r' assume "(m, r') \<in> set (re_plus isNameChar s)"
      then have mr: "s = m @ r'" "list_all isNameChar m" by (auto dest: re_plus_mem)
      have "c \<in> set s" using c(1) by (auto dest: set_dropWhileD)
      moreover have "c \<notin> set m" using mr(2) c(2) isNameChar_isDot by (auto simp: list_all_iff)
      ultimately have "c \<in> set r'" using mr(1) by auto
      then have "\<not> list_all isDot r'" using c(2) by (auto simp: list_all_iff)
      then show "firstFull (?K m r') = None" by (simp add: firstFull_tail)
    qed
    then show ?thesis using nd by (simp add: re_seq_def [of "re_plus isNameChar"])
  qed
qed

text \<open>\<open>regex_match\<close> in closed form, by the first two characters of the token.\<close>

lemma regex_match_long:
  "regex_match (CHR ''-'' # CHR ''-'' # s) =
     (if takeWhile isNameChar s \<noteq> [] \<and> list_all isDot (dropWhile isNameChar s)
      then Some (LongMatch (takeWhile isNameChar s)
                   (let r = dropWhile isNameChar s;
                        txt = (case r of [] \<Rightarrow> [] | c # r' \<Rightarrow> if c = CHR ''='' then r' else r)
                    in if txt = [] then None else Some txt))
      else None)"
proof -
  have "shortRegex (CHR ''-'' # CHR ''-'' # s) = []"
    by (simp add: shortRegex_def re_seq_def isAlpha_def)
  moreover have "longRegex (CHR ''-'' # CHR ''-'' # s) =
      re_seq (re_plus isNameChar) (\<lambda>n.
              re_seq (re_opt (re_chr CHR ''='')) (\<lambda>_.
              re_seq (re_opt (re_plus isDot)) (\<lambda>v. re_ret (LongMatch n v)))) s"
    by (simp add: longRegex_def re_seq_def [of "re_chr CHR ''-''"])
  ultimately show ?thesis
    by (simp only: regex_match_def optRegex_def re_alt_def append_Nil firstFull_name)
qed

lemma regex_match_short:
  "isAlpha c \<Longrightarrow>
   regex_match (CHR ''-'' # c # r) =
     (if list_all isDot r then Some (ShortMatch [c] (if r = [] then None else Some r)) else None)"
proof -
  assume c: "isAlpha c"
  then have "longRegex (CHR ''-'' # c # r) = []"
    by (simp add: longRegex_def re_seq_def [of "re_chr CHR ''-''"] isAlpha_not_dash)
  moreover have "shortRegex (CHR ''-'' # c # r) =
     re_seq (re_opt (re_plus isDot)) (\<lambda>v. re_ret (ShortMatch [c] v)) r"
    using c by (simp add: shortRegex_def re_seq_def [of "re_chr CHR ''-''"] re_seq_def [of "re_cls isAlpha"])
  ultimately show ?thesis
    by (simp add: regex_match_def optRegex_def re_alt_def firstFull_optDot)
qed

lemma regex_match_plain:
  "tok = [] \<or> hd tok \<noteq> CHR ''-'' \<or> tl tok = [] \<or> (\<not> isAlpha (hd (tl tok)) \<and> hd (tl tok) \<noteq> CHR ''-'')
   \<Longrightarrow> regex_match tok = None"
proof (cases tok)
  case Nil
  then show ?thesis
    by (simp add: regex_match_def optRegex_def re_alt_def shortRegex_def longRegex_def re_seq_def firstFull_Nil)
next
  case (Cons a t)
  assume h: "tok = [] \<or> hd tok \<noteq> CHR ''-'' \<or> tl tok = [] \<or> (\<not> isAlpha (hd (tl tok)) \<and> hd (tl tok) \<noteq> CHR ''-'')"
  show ?thesis
  proof (cases t)
    case Nil
    then show ?thesis using Cons
      by (simp add: regex_match_def optRegex_def re_alt_def shortRegex_def longRegex_def re_seq_def firstFull_Nil)
  next
    case (Cons c r)
    then show ?thesis using \<open>tok = a # t\<close> h
      by (auto simp: regex_match_def optRegex_def re_alt_def shortRegex_def longRegex_def re_seq_def firstFull_Nil)
  qed
qed

section \<open>Long options\<close>

text \<open>
  Claim C2, as the code has it: a token classified as a long option begins with
  \<open>--\<close>; its name is the maximal run of name characters after that, and is not
  empty; the inline value is the text left after the name, without one leading
  \<open>=\<close> if there is one, and it is captured exactly when that text is not empty.
  So a bare long token (\<open>--output\<close>) has no inline value, and neither has one that
  ends with the \<open>=\<close> (\<open>--output=\<close>).
\<close>

theorem long_option_shape:
  "(regex_match tok = Some (LongMatch n v) \<longrightarrow>
      take 2 tok = ''--'' \<and> n \<noteq> [] \<and> n = takeWhile isNameChar (drop 2 tok) \<and>
      v = (let r = dropWhile isNameChar (drop 2 tok);
               txt = (case r of [] \<Rightarrow> [] | c # r' \<Rightarrow> if c = CHR ''='' then r' else r)
           in if txt = [] then None else Some txt))
   \<and> (m \<noteq> [] \<and> list_all isNameChar m \<longrightarrow>
        regex_match (''--'' @ m) = Some (LongMatch m None) \<and>
        regex_match (''--'' @ m @ ''='') = Some (LongMatch m None))"
proof (intro conjI impI)
  assume m: "m \<noteq> [] \<and> list_all isNameChar m"
  then have tw: "takeWhile isNameChar m = m" "dropWhile isNameChar m = []"
    by (simp_all add: list_all_iff)
  show "regex_match (''--'' @ m) = Some (LongMatch m None)"
    using m by (simp add: regex_match_long tw)
  have "\<not> isNameChar CHR ''=''" by (simp add: isNameChar_def isAlpha_def)
  then have tw': "takeWhile isNameChar (m @ ''='') = m" "dropWhile isNameChar (m @ ''='') = ''=''"
    using m by (simp_all add: list_all_iff takeWhile_append2 dropWhile_append2)
  show "regex_match (''--'' @ m @ ''='') = Some (LongMatch m None)"
    using m by (simp add: regex_match_long tw' isDot_def)
next
  assume a: "regex_match tok = Some (LongMatch n v)"
  have "\<exists>s. tok = CHR ''-'' # CHR ''-'' # s"
  proof (rule ccontr)
    assume n: "\<not> (\<exists>s. tok = CHR ''-'' # CHR ''-'' # s)"
    show False
    proof (cases "tok = [] \<or> hd tok \<noteq> CHR ''-'' \<or> tl tok = [] \<or> (\<not> isAlpha (hd (tl tok)) \<and> hd (tl tok) \<noteq> CHR ''-'')")
      case True
      then show False using a regex_match_plain [of tok] by simp
    next
      case False
      then obtain c r where t: "tok = CHR ''-'' # c # r"
        by (cases tok; cases "tl tok") auto
      with n have "c \<noteq> CHR ''-''" by simp
      with False t have "isAlpha c" by simp
      then show False using a t by (simp add: regex_match_short split: if_splits)
    qed
  qed
  then obtain s where s: "tok = CHR ''-'' # CHR ''-'' # s" by blast
  have d: "drop 2 tok = s" "take 2 tok = ''--''" by (simp_all add: s)
  from a show "take 2 tok = ''--''" by (simp add: d)
  from a show "n \<noteq> []"
    unfolding s regex_match_long by (auto split: if_splits)
  from a show "n = takeWhile isNameChar (drop 2 tok)"
    unfolding d unfolding s regex_match_long by (auto split: if_splits)
  from a show "v = (let r = dropWhile isNameChar (drop 2 tok);
               txt = (case r of [] \<Rightarrow> [] | c # r' \<Rightarrow> if c = CHR ''='' then r' else r)
           in if txt = [] then None else Some txt)"
    unfolding d unfolding s regex_match_long by (auto split: if_splits)
qed

text \<open>The theorem at the tokens \<open>--output=foo\<close>, \<open>--output\<close> and \<open>--output=\<close>.\<close>

lemma regex_output_foo: "regex_match ''--output=foo'' = Some (LongMatch ''output'' (Some ''foo''))"
  by (simp add: regex_match_long isNameChar_def isAlpha_def isDot_def)

theorem long_option_shape_witness:
  "regex_match ''--output=foo'' = Some (LongMatch ''output'' (Some ''foo''))
   \<and> take 2 ''--output=foo'' = ''--''
   \<and> ''output'' = takeWhile isNameChar (drop 2 ''--output=foo'')
   \<and> ''output'' \<noteq> [] \<and> list_all isNameChar ''output''
   \<and> regex_match ''--output'' = Some (LongMatch ''output'' None)
   \<and> regex_match ''--output='' = Some (LongMatch ''output'' None)"
  using long_option_shape [of "''--output=foo''" "''output''" "Some ''foo''" "''output''"]
    regex_output_foo
  by (simp add: isNameChar_def isAlpha_def)

text \<open>
  Claim C2 as stated fails: \<open>--output=\<close> has a \<open>=\<close> after the name, and no inline
  value is captured (\<open>sm[6].matched\<close> is false); \<open>--output.txt\<close> has no \<open>=\<close>, and the
  inline value \<open>.txt\<close> is captured.
\<close>

theorem long_option_equals_counterexample:
  "regex_match ''--output='' = Some (LongMatch ''output'' None)
   \<and> regex_match ''--output.txt'' = Some (LongMatch ''output'' (Some ''.txt''))"
  by (simp add: regex_match_long isNameChar_def isAlpha_def isDot_def)

section \<open>Registration\<close>








section \<open>Queries\<close>

text \<open>\<open>parse\<close> leaves a result store of the size of the registry.\<close>

lemma length_foundOption [simp]:
  "length (st_result (foundOption opts field n v tok st)) = length (st_result st)"
  by (simp add: foundOption_def Let_def split: option.splits)

lemma length_parseToken [simp]:
  "length (st_result (parseToken opts st tok)) = length (st_result st)"
  by (simp add: parseToken_def Let_def split: option.splits smatch.splits)

lemma length_parseLoop [simp]:
  "length (st_result (parseLoop opts st q)) = length (st_result st)"
  by (induction q arbitrary: st) simp_all

lemma st_result_checkExpect [simp]: "st_result (checkExpect opts st) = st_result st"
  by (simp add: checkExpect_def)

lemma st_arg_checkExpect [simp]: "st_arg (checkExpect opts st) = st_arg st"
  by (simp add: checkExpect_def)

lemma checkMandatory_fold:
  "st_result (foldl (\<lambda>s i. if \<not> optional (opts ! i) \<and> \<not> present (st_result s ! i)
                  then s\<lparr>cerr := cerr s @ [MandatoryMissing (optName (opts ! i))],
                         isCorrect := False\<rparr>
                  else s) st is) = st_result st
   \<and> st_arg (foldl (\<lambda>s i. if \<not> optional (opts ! i) \<and> \<not> present (st_result s ! i)
                  then s\<lparr>cerr := cerr s @ [MandatoryMissing (optName (opts ! i))],
                         isCorrect := False\<rparr>
                  else s) st is) = st_arg st"
  by (induction "is" arbitrary: st) simp_all

lemma st_result_checkMandatory [simp]: "st_result (checkMandatory opts st) = st_result st"
  by (simp add: checkMandatory_def checkMandatory_fold)

lemma st_arg_checkMandatory [simp]: "st_arg (checkMandatory opts st) = st_arg st"
  by (simp add: checkMandatory_def checkMandatory_fold)

lemma length_initResults [simp]: "length (initResults opts) = length opts"
  by (simp add: initResults_eq)

lemma length_parse_result:
  "length (result (fst (snd (parse p argc argv)))) = length (opt p)"
  by (simp add: parse_def Let_def parseState_def initState_def)

text \<open>\<open>optIndex\<close>: no option of that name, and the first option of that name.\<close>

lemma optIndex_none:
  "(\<forall>q\<in>set (opt p). shortName q \<noteq> name \<and> longName q \<noteq> name) \<Longrightarrow> optIndex p name = - 1"
  using find_if_end [of "\<lambda>q. shortName q = name \<or> longName q = name" "opt p"]
  by (simp add: optIndex_def)

lemma optIndex_first:
  "i < length (opt p) \<Longrightarrow> shortName (opt p ! i) = name \<or> longName (opt p ! i) = name \<Longrightarrow>
   (\<forall>j<i. shortName (opt p ! j) \<noteq> name \<and> longName (opt p ! j) \<noteq> name) \<Longrightarrow>
   optIndex p name = int i"
  using find_if_first [of i "opt p" "\<lambda>q. shortName q = name \<or> longName q = name"]
  by (simp add: optIndex_def)

text \<open>
  Claim C7: \<open>gotOption\<close> and \<open>optionValue\<close> throw \<open>options not parsed\<close> when the
  result store has not the size of the registry; otherwise they throw
  \<open>no option with name\<close> when no registered option has the name as its short or
  long name; otherwise they return the presence flag and the stored string of the
  first option that has the name, as the result store holds them. After a call of
  \<open>parse\<close> the result store has the size of the registry.
\<close>

theorem queries:
  "(length (result p) \<noteq> length (opt p) \<longrightarrow>
      gotOption p name = Inl (RuntimeError ''options not parsed'') \<and>
      optionValue p name = Inl (RuntimeError ''options not parsed''))
   \<and> (length (result p) = length (opt p) \<and>
       (\<forall>q\<in>set (opt p). shortName q \<noteq> name \<and> longName q \<noteq> name) \<longrightarrow>
      gotOption p name = Inl (OutOfRange (''no option with name '' @ [CHR 0x27] @ name @ [CHR 0x27])) \<and>
      optionValue p name = Inl (OutOfRange (''no option with name '' @ [CHR 0x27] @ name @ [CHR 0x27])))
   \<and> (length (result p) = length (opt p) \<and> i < length (opt p) \<and>
       (shortName (opt p ! i) = name \<or> longName (opt p ! i) = name) \<and>
       (\<forall>j<i. shortName (opt p ! j) \<noteq> name \<and> longName (opt p ! j) \<noteq> name) \<longrightarrow>
      gotOption p name = Inr (present (result p ! i)) \<and>
      optionValue p name = Inr (rvalue (result p ! i)))
   \<and> length (result (fst (snd (parse p argc argv)))) = length (opt (fst (snd (parse p argc argv))))"
proof (intro conjI impI)
  assume "length (result p) \<noteq> length (opt p)"
  then show "gotOption p name = Inl (RuntimeError ''options not parsed'')"
    and "optionValue p name = Inl (RuntimeError ''options not parsed'')"
    by (simp_all add: gotOption_def optionValue_def notParsed_def Let_def)
next
  assume a: "length (result p) = length (opt p) \<and>
       (\<forall>q\<in>set (opt p). shortName q \<noteq> name \<and> longName q \<noteq> name)"
  then have "optIndex p name = - 1" by (simp add: optIndex_none)
  then show "gotOption p name = Inl (OutOfRange (''no option with name '' @ [CHR 0x27] @ name @ [CHR 0x27]))"
    and "optionValue p name = Inl (OutOfRange (''no option with name '' @ [CHR 0x27] @ name @ [CHR 0x27]))"
    using a by (simp_all add: gotOption_def optionValue_def noOption_def Let_def)
next
  assume a: "length (result p) = length (opt p) \<and> i < length (opt p) \<and>
       (shortName (opt p ! i) = name \<or> longName (opt p ! i) = name) \<and>
       (\<forall>j<i. shortName (opt p ! j) \<noteq> name \<and> longName (opt p ! j) \<noteq> name)"
  then have "optIndex p name = int i" by (simp add: optIndex_first)
  then show "gotOption p name = Inr (present (result p ! i))"
    and "optionValue p name = Inr (rvalue (result p ! i))"
    using a by (simp_all add: gotOption_def optionValue_def strTo_def Let_def)
next
  show "length (result (fst (snd (parse p argc argv)))) = length (opt (fst (snd (parse p argc argv))))"
    by (simp add: length_parse_result parse_opt)
qed

text \<open>
  The theorem on the parser of the test program: before any parse, and after
  parsing \<open>-a foo\<close>, for a name that is not registered and for registered ones.
\<close>

lemma parse_a_foo:
  "parse testParser 3 [''prog'', ''-a'', ''foo''] =
     (False,
      testParser\<lparr>result := [\<lparr>rvalue = ''foo'', present = True\<rparr>, \<lparr>rvalue = [], present = False\<rparr>],
                 arg := []\<rparr>,
      [MandatoryMissing ''-b/--long-b''])"
  by code_simp

theorem queries_witness:
  "gotOption testParser ''a'' = Inl (RuntimeError ''options not parsed'')
   \<and> optionValue testParser ''a'' = Inl (RuntimeError ''options not parsed'')
   \<and> gotOption (fst (snd (parse testParser 3 [''prog'', ''-a'', ''foo'']))) ''c''
        = Inl (OutOfRange (''no option with name '' @ [CHR 0x27] @ ''c'' @ [CHR 0x27]))
   \<and> gotOption (fst (snd (parse testParser 3 [''prog'', ''-a'', ''foo'']))) ''long-b'' = Inr False
   \<and> gotOption (fst (snd (parse testParser 3 [''prog'', ''-a'', ''foo'']))) ''a'' = Inr True
   \<and> optionValue (fst (snd (parse testParser 3 [''prog'', ''-a'', ''foo'']))) ''a'' = Inr ''foo''"
  using queries [of testParser "''a''" 0 0 "[]"]
        queries [of "fst (snd (parse testParser 3 [''prog'', ''-a'', ''foo'']))" "''c''" 0 0 "[]"]
        queries [of "fst (snd (parse testParser 3 [''prog'', ''-a'', ''foo'']))" "''long-b''" 1 0 "[]"]
        queries [of "fst (snd (parse testParser 3 [''prog'', ''-a'', ''foo'']))" "''a''" 0 0 "[]"]
  unfolding parse_a_foo
  by (simp add: testParser_def optA_def optB_def less_Suc_eq)

section \<open>The option list\<close>

lemma optName_eq:
  "optName q =
     (if shortName q = [] then [] else ''-'' @ shortName q @ (if longName q = [] then [] else ''/''))
     @ (if longName q = [] then []
        else ''--'' @ longName q @ (if optType q = OptValue then ''='' else []))"
  by (simp add: optName_def)

lemma printOptions_eq:
  "printOptions out os = out @ concat (map (printOption []) os)"
proof (induction os arbitrary: out)
  case Nil
  show ?case by simp
next
  case (Cons q os)
  have "printOption out q = out @ printOption [] q"
    by (simp add: printOption_def Let_def)
  then show ?case by (simp add: Cons.IH)
qed

text \<open>
  Claim C8, as the code has it: \<open>operator<<\<close> appends one line for each registered
  option, in the order of registration: the name of the option, padded on the left
  with spaces to 20 characters when it is shorter, then \<open>: \<close> and the help
  message, then \<open> (default: d)\<close> unless the default value \<open>d\<close> is empty, then a line
  feed. The name is \<open>-s\<close>, \<open>--long\<close> or \<open>-s/--long\<close> by the names that are not
  empty, and the \<open>=\<close> is appended to it exactly when the option is a value option and
  has a long name.
\<close>

theorem print_lines:
  "print out p =
     out @ concat (map (\<lambda>q. replicate (20 - length (optName q)) CHR '' '' @ optName q
                            @ '': '' @ helpMessage q
                            @ (if defaultVal q = [] then [] else '' (default: '' @ defaultVal q @ '')'')
                            @ [CHR 0x0A]) (opt p))
   \<and> optName q =
       (if shortName q = [] then [] else ''-'' @ shortName q @ (if longName q = [] then [] else ''/''))
       @ (if longName q = [] then []
          else ''--'' @ longName q @ (if optType q = OptValue then ''='' else []))"
proof
  have "printOption [] = (\<lambda>q. replicate (20 - length (optName q)) CHR '' '' @ optName q
                            @ '': '' @ helpMessage q
                            @ (if defaultVal q = [] then [] else '' (default: '' @ defaultVal q @ '')'')
                            @ [CHR 0x0A])"
    by (rule ext) (simp add: printOption_def setw_def Let_def)
  then show "print out p =
     out @ concat (map (\<lambda>q. replicate (20 - length (optName q)) CHR '' '' @ optName q
                            @ '': '' @ helpMessage q
                            @ (if defaultVal q = [] then [] else '' (default: '' @ defaultVal q @ '')'')
                            @ [CHR 0x0A]) (opt p))"
    by (simp add: print_def printOptions_eq)
next
  show "optName q =
       (if shortName q = [] then [] else ''-'' @ shortName q @ (if longName q = [] then [] else ''/''))
       @ (if longName q = [] then []
          else ''--'' @ longName q @ (if optType q = OptValue then ''='' else []))"
    by (rule optName_eq)
qed

text \<open>The output of the test program: the two options of its parser.\<close>

theorem print_lines_witness:
  "print [] testParser =
     ''        -a/--long-a=: option a'' @ [CHR 0x0A] @ ''         -b/--long-b: option b'' @ [CHR 0x0A]
   \<and> optName optA = ''-a/--long-a='' \<and> optName optB = ''-b/--long-b''"
  using print_lines [of "[]" testParser optA] print_lines [of "[]" testParser optB]
  by (simp add: testParser_def optA_def optB_def optName_def eval_nat_numeral)

text \<open>
  Claim C8 as stated fails: a value option that has a short name only is listed
  without a trailing \<open>=\<close>.
\<close>

theorem optName_short_value_counterexample:
  "optName \<lparr>shortName = ''a'', longName = [], defaultVal = ''1'', helpMessage = ''option a'',
            optType = OptValue, optional = True\<rparr> = ''-a''
   \<and> print [] \<lparr>opt = [\<lparr>shortName = ''a'', longName = [], defaultVal = ''1'',
                        helpMessage = ''option a'', optType = OptValue, optional = True\<rparr>],
               result = [], arg = []\<rparr>
       = ''                  -a: option a (default: 1)'' @ [CHR 0x0A]"
  by (simp add: optName_def print_def printOption_def setw_def eval_nat_numeral)

section \<open>The value returned by \<open>parse\<close>\<close>

text \<open>The queue for one token and for two tokens after the program name.\<close>

lemma argQueue_in_range:
  assumes le: "nat argc \<le> length argv"
  shows "argQueue argc argv = take (nat argc - 1) (tl argv)"
proof (cases "nat argc")
  case 0
  then show ?thesis by (simp add: argQueue_def)
next
  case (Suc n)
  then obtain a as where Cons: "argv = a # as" using le by (cases argv) auto
  then have n: "n \<le> length as" using le Suc by simp
  have "map (\<lambda>i. (a # as) ! i) [1..<Suc n] = map (\<lambda>i. as ! i) [0..<n]"
    by (simp add: map_Suc_upt [symmetric] del: upt_Suc)
  also have "\<dots> = take n as"
    using n by (intro nth_equalityI) auto
  finally show ?thesis using Cons Suc by (simp add: argQueue_def)
qed

lemma argQueue_two: "argQueue 2 [prog, tok] = [tok]"
  by (simp add: argQueue_def upt_rec)

lemma argQueue_three: "argQueue 3 [prog, t1, t2] = [t1, t2]"
  by (simp add: argQueue_def upt_rec)

text \<open>
  An invariant of \<open>parse\<close>: \<open>isCorrect\<close> is true exactly when every warning written
  so far is an unknown-option warning.
\<close>

lemma foundOption_correct:
  "isCorrect st = list_all isUnknownOption (cerr st) \<Longrightarrow>
   isCorrect (foundOption opts field n v tok st)
     = list_all isUnknownOption (cerr (foundOption opts field n v tok st))"
  by (simp add: foundOption_def Let_def split: option.splits)

lemma parseToken_correct:
  "isCorrect st = list_all isUnknownOption (cerr st) \<Longrightarrow>
   isCorrect (parseToken opts st tok) = list_all isUnknownOption (cerr (parseToken opts st tok))"
  by (simp add: parseToken_def Let_def foundOption_correct split: option.splits smatch.splits)

lemma parseLoop_correct:
  "isCorrect st = list_all isUnknownOption (cerr st) \<Longrightarrow>
   isCorrect (parseLoop opts st q) = list_all isUnknownOption (cerr (parseLoop opts st q))"
  by (induction q arbitrary: st) (simp_all add: parseToken_correct)

lemma checkExpect_correct:
  "isCorrect st = list_all isUnknownOption (cerr st) \<Longrightarrow>
   isCorrect (checkExpect opts st) = list_all isUnknownOption (cerr (checkExpect opts st))"
  by (simp add: checkExpect_def)

lemma checkMandatory_fold_correct:
  "isCorrect st = list_all isUnknownOption (cerr st) \<Longrightarrow>
   isCorrect (foldl (\<lambda>s i. if \<not> optional (opts ! i) \<and> \<not> present (st_result s ! i)
                  then s\<lparr>cerr := cerr s @ [MandatoryMissing (optName (opts ! i))],
                         isCorrect := False\<rparr>
                  else s) st is)
   = list_all isUnknownOption (cerr (foldl (\<lambda>s i. if \<not> optional (opts ! i) \<and> \<not> present (st_result s ! i)
                  then s\<lparr>cerr := cerr s @ [MandatoryMissing (optName (opts ! i))],
                         isCorrect := False\<rparr>
                  else s) st is))"
  by (induction "is" arbitrary: st) simp_all

lemma parseState_correct:
  "isCorrect (parseState opts q) = list_all isUnknownOption (cerr (parseState opts q))"
proof -
  have "isCorrect (initState opts) = list_all isUnknownOption (cerr (initState opts))"
    by (simp add: initState_def)
  then have "isCorrect (checkExpect opts (parseLoop opts (initState opts) q))
      = list_all isUnknownOption (cerr (checkExpect opts (parseLoop opts (initState opts) q)))"
    by (intro checkExpect_correct parseLoop_correct)
  then show ?thesis
    unfolding parseState_def checkMandatory_def by (rule checkMandatory_fold_correct)
qed


text \<open>The warnings written by the loop over the mandatory options.\<close>

lemma checkMandatory_steps:
  "k \<le> length opts \<Longrightarrow> length (st_result st) = length opts \<Longrightarrow>
   cerr (foldl (\<lambda>s i. if \<not> optional (opts ! i) \<and> \<not> present (st_result s ! i)
                  then s\<lparr>cerr := cerr s @ [MandatoryMissing (optName (opts ! i))],
                         isCorrect := False\<rparr>
                  else s) st [0..<k])
     = cerr st @ map (\<lambda>(q, r). MandatoryMissing (optName q))
                  (filter (\<lambda>(q, r). \<not> optional q \<and> \<not> present r)
                     (zip (take k opts) (take k (st_result st))))"
proof (induction k)
  case 0
  show ?case by simp
next
  case (Suc k)
  then have k: "k < length opts" "k < length (st_result st)" by simp_all
  have z: "zip (take (Suc k) opts) (take (Suc k) (st_result st))
           = zip (take k opts) (take k (st_result st)) @ [(opts ! k, st_result st ! k)]"
    using k by (simp add: take_Suc_conv_app_nth)
  show ?case using Suc.IH Suc.prems k
    by (simp add: z checkMandatory_fold)
qed

lemma checkMandatory_cerr:
  "length (st_result st) = length opts \<Longrightarrow>
   cerr (checkMandatory opts st)
     = cerr st @ map (\<lambda>(q, r). MandatoryMissing (optName q))
                  (filter (\<lambda>(q, r). \<not> optional q \<and> \<not> present r) (zip opts (st_result st)))"
  using checkMandatory_steps [of "length opts" opts st] by (simp add: checkMandatory_def)

lemma initState_mandatory:
  "map (\<lambda>(q, r). MandatoryMissing (optName q))
     (filter (\<lambda>(q, r). \<not> optional q \<and> \<not> present r) (zip opts (initResults opts)))
   = map (\<lambda>q. MandatoryMissing (optName q)) (filter (\<lambda>q. \<not> optional q) opts)"
  unfolding initResults_eq by (induction opts) simp_all

lemma list_all_mandatory:
  "list_all isUnknownOption (map (\<lambda>q. MandatoryMissing (optName q)) (filter (\<lambda>q. \<not> optional q) opts))
   = list_all optional opts"
  by (induction opts) simp_all

text \<open>The state before the first token, and a token that names no registered option.\<close>

lemma initState_simps:
  "st_result (initState opts) = initResults opts"
  "st_arg (initState opts) = []"
  "expectVal (initState opts) = - 1"
  "isCorrect (initState opts) = True"
  "cerr (initState opts) = []"
  by (simp_all add: initState_def)

lemma parseToken_unknown:
  "regex_match tok \<noteq> None \<Longrightarrow> matchedIndex opts tok = None \<Longrightarrow> expectVal st < 0 \<Longrightarrow>
   parseToken opts st tok = st\<lparr>cerr := cerr st @ [UnknownOption tok]\<rparr>"
  by (auto simp: parseToken_def matchedIndex_def foundOption_def Let_def
           split: option.splits smatch.splits if_splits)

text \<open>
  Claim C1, as the code has it: \<open>parse\<close> returns true if and only if it wrote no
  missing-value warning and no missing-mandatory-option warning, that is, if and
  only if every warning it wrote is an unknown-option warning: an unknown option
  does not change the value returned. In particular, on a single token that has the
  shape of an option and names no registered option, \<open>parse\<close> writes an
  unknown-option warning for the token, leaves the positional arguments empty and
  every option at its default and not present, writes a warning for every mandatory
  option, and returns true if and only if every registered option is optional.
\<close>

theorem parse_return:
  "fst (parse p argc argv) = list_all isUnknownOption (snd (snd (parse p argc argv)))
   \<and> (regex_match tok \<noteq> None \<and> matchedIndex (opt p) tok = None \<longrightarrow>
        parse p 2 [prog, tok] =
          (list_all optional (opt p),
           p\<lparr>result := map (\<lambda>q. \<lparr>rvalue = defaultVal q, present = False\<rparr>) (opt p), arg := []\<rparr>,
           UnknownOption tok #
             map (\<lambda>q. MandatoryMissing (optName q)) (filter (\<lambda>q. \<not> optional q) (opt p))))"
proof (intro conjI impI)
  show "fst (parse p argc argv) = list_all isUnknownOption (snd (snd (parse p argc argv)))"
    by (simp add: parse_def Let_def parseState_correct)
next
  assume a: "regex_match tok \<noteq> None \<and> matchedIndex (opt p) tok = None"
  let ?st = "(initState (opt p))\<lparr>cerr := [UnknownOption tok]\<rparr>"
  have loop: "parseToken (opt p) (initState (opt p)) tok = ?st"
    using a by (simp add: parseToken_unknown initState_simps)
  have ce: "checkExpect (opt p) ?st = ?st"
    by (simp add: checkExpect_def initState_simps)
  have c: "cerr (parseState (opt p) [tok]) = UnknownOption tok #
             map (\<lambda>q. MandatoryMissing (optName q)) (filter (\<lambda>q. \<not> optional q) (opt p))"
    by (simp add: parseState_def loop ce checkMandatory_cerr initState_simps initState_mandatory)
  have r: "st_result (parseState (opt p) [tok])
           = map (\<lambda>q. \<lparr>rvalue = defaultVal q, present = False\<rparr>) (opt p)"
    by (simp add: parseState_def loop initState_simps initResults_eq)
  have g: "st_arg (parseState (opt p) [tok]) = []"
    by (simp add: parseState_def loop initState_simps)
  have i: "isCorrect (parseState (opt p) [tok]) = list_all optional (opt p)"
    by (simp add: parseState_correct c list_all_mandatory)
  show "parse p 2 [prog, tok] =
          (list_all optional (opt p),
           p\<lparr>result := map (\<lambda>q. \<lparr>rvalue = defaultVal q, present = False\<rparr>) (opt p), arg := []\<rparr>,
           UnknownOption tok #
             map (\<lambda>q. MandatoryMissing (optName q)) (filter (\<lambda>q. \<not> optional q) (opt p)))"
    by (simp add: parse_def argQueue_two c r g i)
qed

text \<open>The theorem on the parser of the test program, for \<open>-z\<close> and for \<open>-a foo\<close>.\<close>

lemma regex_minus_z: "regex_match ''-z'' = Some (ShortMatch ''z'' None)"
  by (simp add: regex_match_short isAlpha_def)

theorem parse_return_witness:
  "regex_match ''-z'' \<noteq> None \<and> matchedIndex (opt testParser) ''-z'' = None
   \<and> parse testParser 2 [''prog'', ''-z''] =
       (False,
        testParser\<lparr>result := [\<lparr>rvalue = [], present = False\<rparr>, \<lparr>rvalue = [], present = False\<rparr>],
                   arg := []\<rparr>,
        [UnknownOption ''-z'', MandatoryMissing ''-a/--long-a='', MandatoryMissing ''-b/--long-b''])
   \<and> fst (parse testParser 3 [''prog'', ''-a'', ''foo''])
       = list_all isUnknownOption (snd (snd (parse testParser 3 [''prog'', ''-a'', ''foo''])))"
  using parse_return [of testParser 3 "[''prog'', ''-a'', ''foo'']" "''-z''" "''prog''"]
  by (simp add: regex_minus_z matchedIndex_def testParser_def optA_def optB_def optName_def)

text \<open>
  Claim C1 as stated fails: with the trigger \<open>-b/--long-b\<close> registered as optional,
  parsing \<open>-z\<close> writes an unknown-option warning and returns true.
\<close>

theorem parse_unknown_counterexample:
  "parse \<lparr>opt = [optB\<lparr>optional := True\<rparr>], result = [], arg = []\<rparr> 2 [''prog'', ''-z''] =
     (True,
      \<lparr>opt = [optB\<lparr>optional := True\<rparr>], result = [\<lparr>rvalue = [], present = False\<rparr>], arg = []\<rparr>,
      [UnknownOption ''-z''])"
  by code_simp

section \<open>The registry invariant and the steps of the loop\<close>

text \<open>In a registry with the invariant, a non-empty name is found at its own index.\<close>

lemma distinct_filter_map_nth:
  "distinct (filter P (map f xs)) \<Longrightarrow> i < j \<Longrightarrow> j < length xs \<Longrightarrow> f (xs ! i) = f (xs ! j) \<Longrightarrow>
   \<not> P (f (xs ! i))"
proof (induction xs arbitrary: i j)
  case Nil
  then show ?case by simp
next
  case (Cons x xs)
  obtain j' where j: "j = Suc j'" using Cons.prems(2) by (cases j) auto
  show ?case
  proof (cases i)
    case 0
    have "f (xs ! j') \<in> set (map f xs)" using Cons.prems(3) j by simp
    then show ?thesis using Cons.prems 0 j by (auto split: if_splits)
  next
    case (Suc i')
    have "distinct (filter P (map f xs))" using Cons.prems(1) by (simp split: if_splits)
    then have "\<not> P (f (xs ! i'))"
      using Cons.prems Suc j by (intro Cons.IH [of i' j']) simp_all
    then show ?thesis using Suc by simp
  qed
qed

lemma find_if_distinct:
  assumes "distinct (filter (\<lambda>s. s \<noteq> []) (map f xs))" "i < length xs" "f (xs ! i) = n" "n \<noteq> []"
  shows "find_if (\<lambda>q. f q = n) xs = i"
proof (rule find_if_first)
  show "i < length xs" "f (xs ! i) = n" by fact+
  show "\<forall>j<i. f (xs ! j) \<noteq> n"
  proof (intro allI impI notI)
    fix j assume "j < i" "f (xs ! j) = n"
    then have "\<not> (f (xs ! j) \<noteq> [])"
      using assms by (intro distinct_filter_map_nth [of "\<lambda>s. s \<noteq> []" f xs j i]) simp_all
    then show False using \<open>f (xs ! j) = n\<close> assms(4) by simp
  qed
qed

lemma find_short_unique:
  "distinctNames os \<Longrightarrow> i < length os \<Longrightarrow> shortName (os ! i) = n \<Longrightarrow> n \<noteq> [] \<Longrightarrow>
   find_if (\<lambda>q. shortName q = n) os = i"
  by (simp add: distinctNames_def find_if_distinct)

lemma find_long_unique:
  "distinctNames os \<Longrightarrow> i < length os \<Longrightarrow> longName (os ! i) = n \<Longrightarrow> n \<noteq> [] \<Longrightarrow>
   find_if (\<lambda>q. longName q = n) os = i"
  by (simp add: distinctNames_def find_if_distinct)

text \<open>
  \<open>addOption\<close> maintains the invariant, so every registry built by registrations on
  a new parser has it.
\<close>

lemma addOption_distinctNames:
  assumes "distinctNames (opt p)" "addOption p sn ln ty opl help dflt = Inr p'"
  shows "distinctNames (opt p')"
proof -
  let ?par = "\<lparr>shortName = sn, longName = ln, defaultVal = dflt, helpMessage = help,
                 optType = ty, optional = opl\<rparr>"
  from assms(2) have e: "find_if (collides ?par) (opt p) = length (opt p)" and p': "p' = p\<lparr>opt := opt p @ [?par]\<rparr>"
    by (auto simp: addOption_def Let_def split: if_splits)
  from e have "\<forall>q\<in>set (opt p). \<not> collides ?par q" by (simp add: find_if_end)
  then have "\<forall>q\<in>set (opt p). (sn \<noteq> [] \<longrightarrow> shortName q \<noteq> sn) \<and> (ln \<noteq> [] \<longrightarrow> longName q \<noteq> ln)"
    by (auto simp: collides_def)
  then show ?thesis using assms(1) by (auto simp: p' distinctNames_def)
qed

lemma addOptions_distinctNames:
  "distinctNames (opt p) \<Longrightarrow> addOptions p specs = Inr p' \<Longrightarrow> distinctNames (opt p')"
proof (induction specs arbitrary: p)
  case Nil
  then show ?case by simp
next
  case (Cons x xs)
  then show ?case
    by (auto split: sum.splits dest: addOption_distinctNames)
qed

lemma newParser_distinctNames: "distinctNames (opt newParser)"
  by (simp add: newParser_def distinctNames_def)

text \<open>
  One iteration of the loop, on a token matched with the option of index \<open>j\<close> and on
  a token that does not match the pattern.
\<close>

lemma parseToken_matched:
  "matchedIndex opts tok = Some j \<Longrightarrow>
   parseToken opts st tok =
     (let st1 = (if expectVal st \<ge> 0
                 then st\<lparr>cerr := cerr st @
                           [ExpectedValueGotOption (optName (opts ! nat (expectVal st))) tok],
                         expectVal := - 1, isCorrect := False\<rparr>
                 else st);
          r = (st_result st)[j := (st_result st ! j)\<lparr>present := True\<rparr>]
      in if optType (opts ! j) = OptValue
         then (case inlineValue tok of
                 Some s \<Rightarrow> st1\<lparr>st_result := r[j := (r ! j)\<lparr>rvalue := s\<rparr>]\<rparr>
               | None \<Rightarrow> st1\<lparr>st_result := r, expectVal := int j\<rparr>)
         else st1\<lparr>st_result := r\<rparr>)"
  by (auto simp: parseToken_def matchedIndex_def inlineValue_def foundOption_def Let_def
           split: option.splits smatch.splits if_splits)

lemma parseToken_plain:
  "regex_match tok = None \<Longrightarrow>
   parseToken opts st tok =
     (if expectVal st \<ge> 0
      then st\<lparr>st_result := (st_result st)[nat (expectVal st) :=
                             (st_result st ! nat (expectVal st))\<lparr>rvalue := tok\<rparr>],
              expectVal := - 1\<rparr>
      else st\<lparr>st_arg := st_arg st @ [tok]\<rparr>)"
  by (simp add: parseToken_def)

section \<open>Inline value and deferred value\<close>

text \<open>The tokens \<open>--long-a=foo\<close>, \<open>-a\<close> and \<open>foo\<close>, and the loop on them.\<close>

lemma regex_long_a_foo: "regex_match ''--long-a=foo'' = Some (LongMatch ''long-a'' (Some ''foo''))"
  by (simp add: regex_match_long isNameChar_def isAlpha_def isDot_def)

lemma regex_minus_a: "regex_match ''-a'' = Some (ShortMatch ''a'' None)"
  by (simp add: regex_match_short isAlpha_def)

lemma regex_foo: "regex_match ''foo'' = None"
  by (simp add: regex_match_plain)

lemma matched_minus_a:
  "distinctNames opts \<Longrightarrow> i < length opts \<Longrightarrow> shortName (opts ! i) = ''a'' \<Longrightarrow>
   matchedIndex opts ''-a'' = Some i \<and> inlineValue ''-a'' = None"
  by (simp add: matchedIndex_def inlineValue_def regex_minus_a find_short_unique)

lemma matched_long_a_foo:
  "distinctNames opts \<Longrightarrow> i < length opts \<Longrightarrow> longName (opts ! i) = ''long-a'' \<Longrightarrow>
   matchedIndex opts ''--long-a=foo'' = Some i \<and> inlineValue ''--long-a=foo'' = Some ''foo''"
  by (simp add: matchedIndex_def inlineValue_def regex_long_a_foo find_long_unique)

lemma loop_minus_a:
  assumes "distinctNames opts" "i < length opts" "shortName (opts ! i) = ''a''"
    "optType (opts ! i) = OptValue"
  shows "parseToken opts (initState opts) ''-a'' =
           (initState opts)\<lparr>st_result := (initResults opts)[i := \<lparr>rvalue = defaultVal (opts ! i), present = True\<rparr>],
                            expectVal := int i\<rparr>"
proof -
  have m: "matchedIndex opts ''-a'' = Some i" "inlineValue ''-a'' = None"
    using matched_minus_a [OF assms(1-3)] by simp_all
  show ?thesis using assms(2,4)
    by (simp add: parseToken_matched [OF m(1)] m(2) initState_simps initResults_eq)
qed

lemma loop_minus_a_foo:
  assumes "distinctNames opts" "i < length opts" "shortName (opts ! i) = ''a''"
    "optType (opts ! i) = OptValue"
  shows "parseLoop opts (initState opts) [''-a'', ''foo''] =
           (initState opts)\<lparr>st_result := (initResults opts)[i := \<lparr>rvalue = ''foo'', present = True\<rparr>]\<rparr>"
proof -
  have "parseLoop opts (initState opts) [''-a'', ''foo'']
        = parseToken opts (parseToken opts (initState opts) ''-a'') ''foo''"
    by simp
  also have "\<dots> = parseToken opts
      ((initState opts)\<lparr>st_result := (initResults opts)[i := \<lparr>rvalue = defaultVal (opts ! i), present = True\<rparr>],
                        expectVal := int i\<rparr>) ''foo''"
    by (simp only: loop_minus_a [OF assms])
  also have "\<dots> = (initState opts)\<lparr>st_result := (initResults opts)[i := \<lparr>rvalue = ''foo'', present = True\<rparr>]\<rparr>"
    using assms(2) by (simp add: parseToken_plain [OF regex_foo] initState_def)
  finally show ?thesis .
qed

lemma loop_long_a_foo:
  assumes "distinctNames opts" "i < length opts" "longName (opts ! i) = ''long-a''"
    "optType (opts ! i) = OptValue"
  shows "parseLoop opts (initState opts) [''--long-a=foo''] =
           (initState opts)\<lparr>st_result := (initResults opts)[i := \<lparr>rvalue = ''foo'', present = True\<rparr>]\<rparr>"
proof -
  have m: "matchedIndex opts ''--long-a=foo'' = Some i" "inlineValue ''--long-a=foo'' = Some ''foo''"
    using matched_long_a_foo [OF assms(1-3)] by simp_all
  show ?thesis using assms(2,4)
    by (simp add: parseToken_matched [OF m(1)] m(2) initState_simps initResults_eq)
qed

text \<open>
  Claim C5: on a registry (with the invariant of \<open>addOption\<close>) that holds a value
  option of short name \<open>a\<close> and long name \<open>long-a\<close>, parsing \<open>--long-a=foo\<close> and
  parsing \<open>-a foo\<close> give the same result store: the defaults, not present, except
  for that option, which is present with the value \<open>foo\<close>. The value returned, the
  positional arguments and the warnings are the same too.
\<close>

theorem inline_deferred_same:
  assumes "distinctNames (opt p)" "i < length (opt p)"
    and "shortName (opt p ! i) = ''a''" "longName (opt p ! i) = ''long-a''"
    and "optType (opt p ! i) = OptValue"
  shows "parse p 2 [prog, ''--long-a=foo''] = parse p 3 [prog, ''-a'', ''foo'']
         \<and> result (fst (snd (parse p 2 [prog, ''--long-a=foo''])))
             = (map (\<lambda>q. \<lparr>rvalue = defaultVal q, present = False\<rparr>) (opt p))
                 [i := \<lparr>rvalue = ''foo'', present = True\<rparr>]
         \<and> result (fst (snd (parse p 3 [prog, ''-a'', ''foo''])))
             = (map (\<lambda>q. \<lparr>rvalue = defaultVal q, present = False\<rparr>) (opt p))
                 [i := \<lparr>rvalue = ''foo'', present = True\<rparr>]"
proof -
  have l: "parseLoop (opt p) (initState (opt p)) [''--long-a=foo'']
           = (initState (opt p))\<lparr>st_result := (initResults (opt p))[i := \<lparr>rvalue = ''foo'', present = True\<rparr>]\<rparr>"
    using assms by (intro loop_long_a_foo)
  have s: "parseLoop (opt p) (initState (opt p)) [''-a'', ''foo'']
           = (initState (opt p))\<lparr>st_result := (initResults (opt p))[i := \<lparr>rvalue = ''foo'', present = True\<rparr>]\<rparr>"
    using assms by (intro loop_minus_a_foo)
  have e: "parseState (opt p) [''--long-a=foo''] = parseState (opt p) [''-a'', ''foo'']"
    unfolding parseState_def l s ..
  have r: "st_result (parseState (opt p) [''-a'', ''foo''])
           = (initResults (opt p))[i := \<lparr>rvalue = ''foo'', present = True\<rparr>]"
    unfolding parseState_def s by simp
  show ?thesis
    by (simp add: parse_def Let_def argQueue_two argQueue_three e r initResults_eq)
qed

text \<open>The theorem on the parser of the test program.\<close>

theorem inline_deferred_same_witness:
  "distinctNames (opt testParser) \<and> 0 < length (opt testParser)
   \<and> shortName (opt testParser ! 0) = ''a'' \<and> longName (opt testParser ! 0) = ''long-a''
   \<and> optType (opt testParser ! 0) = OptValue
   \<and> parse testParser 2 [''prog'', ''--long-a=foo''] = parse testParser 3 [''prog'', ''-a'', ''foo'']
   \<and> result (fst (snd (parse testParser 2 [''prog'', ''--long-a=foo''])))
       = [\<lparr>rvalue = ''foo'', present = True\<rparr>, \<lparr>rvalue = [], present = False\<rparr>]"
proof -
  have h: "distinctNames (opt testParser)" "0 < length (opt testParser)"
    "shortName (opt testParser ! 0) = ''a''" "longName (opt testParser ! 0) = ''long-a''"
    "optType (opt testParser ! 0) = OptValue"
    by (simp_all add: testParser_def optA_def optB_def distinctNames_def)
  show ?thesis
    using h inline_deferred_same [OF h, of "''prog''"]
    by (simp add: testParser_def optA_def optB_def)
qed

section \<open>A value missing at the end of the arguments\<close>

text \<open>The loop over the mandatory options keeps the warnings written before it.\<close>

lemma cerr_mandatory_fold_subset:
  "set (cerr st) \<subseteq> set (cerr (foldl (\<lambda>s i. if \<not> optional (opts ! i) \<and> \<not> present (st_result s ! i)
                  then s\<lparr>cerr := cerr s @ [MandatoryMissing (optName (opts ! i))],
                         isCorrect := False\<rparr>
                  else s) st is))"
proof (induction "is" arbitrary: st)
  case Nil
  show ?case by simp
next
  case (Cons a "is")
  let ?st' = "if \<not> optional (opts ! a) \<and> \<not> present (st_result st ! a)
              then st\<lparr>cerr := cerr st @ [MandatoryMissing (optName (opts ! a))], isCorrect := False\<rparr>
              else st"
  have "set (cerr st) \<subseteq> set (cerr ?st')" by auto
  also have "\<dots> \<subseteq> set (cerr (foldl (\<lambda>s i. if \<not> optional (opts ! i) \<and> \<not> present (st_result s ! i)
                  then s\<lparr>cerr := cerr s @ [MandatoryMissing (optName (opts ! i))],
                         isCorrect := False\<rparr>
                  else s) ?st' is))"
    by (rule Cons.IH)
  finally show ?case by simp
qed

lemma cerr_checkMandatory_subset: "set (cerr st) \<subseteq> set (cerr (checkMandatory opts st))"
  by (simp add: checkMandatory_def cerr_mandatory_fold_subset)

text \<open>
  Claim C6: on a registry (with the invariant of \<open>addOption\<close>) that holds a value
  option of short name \<open>a\<close>, parsing the single token \<open>-a\<close> leaves the loop with
  \<open>expectVal\<close> at the index of that option, writes the warning that a value was
  expected for it, returns false, and leaves the value of the option at its
  default; the option is marked present.
\<close>

theorem missing_value_at_end:
  assumes "distinctNames (opt p)" "i < length (opt p)"
    and "shortName (opt p ! i) = ''a''" "optType (opt p ! i) = OptValue"
  shows "expectVal (parseLoop (opt p) (initState (opt p)) (argQueue 2 [prog, ''-a''])) = int i
         \<and> ExpectedValue (optName (opt p ! i)) \<in> set (snd (snd (parse p 2 [prog, ''-a''])))
         \<and> fst (parse p 2 [prog, ''-a'']) = False
         \<and> rvalue (result (fst (snd (parse p 2 [prog, ''-a'']))) ! i) = defaultVal (opt p ! i)
         \<and> present (result (fst (snd (parse p 2 [prog, ''-a'']))) ! i)"
proof -
  let ?st = "(initState (opt p))\<lparr>st_result := (initResults (opt p))[i := \<lparr>rvalue = defaultVal (opt p ! i), present = True\<rparr>],
                                 expectVal := int i\<rparr>"
  have l: "parseToken (opt p) (initState (opt p)) ''-a'' = ?st"
    using assms by (intro loop_minus_a)
  have ps: "parseState (opt p) [''-a''] = checkMandatory (opt p) (checkExpect (opt p) ?st)"
    by (simp add: parseState_def l)
  have w: "ExpectedValue (optName (opt p ! i)) \<in> set (cerr (checkExpect (opt p) ?st))"
    by (simp add: checkExpect_def)
  then have w': "ExpectedValue (optName (opt p ! i)) \<in> set (cerr (parseState (opt p) [''-a'']))"
    unfolding ps using cerr_checkMandatory_subset by blast
  then have "\<exists>x\<in>set (cerr (parseState (opt p) [''-a''])). \<not> isUnknownOption x"
    by (rule bexI [rotated]) simp
  then have "\<not> list_all isUnknownOption (cerr (parseState (opt p) [''-a'']))"
    by (simp add: list_all_iff)
  then have f: "\<not> isCorrect (parseState (opt p) [''-a''])"
    by (simp add: parseState_correct)
  have r: "st_result (parseState (opt p) [''-a''])
           = (initResults (opt p))[i := \<lparr>rvalue = defaultVal (opt p ! i), present = True\<rparr>]"
    by (simp add: ps)
  show ?thesis using assms(2) w' f
    by (simp add: parse_def Let_def argQueue_two l r)
qed

text \<open>The theorem on the parser of the test program.\<close>

lemma parse_minus_a:
  "parse testParser 2 [''prog'', ''-a''] =
     (False,
      testParser\<lparr>result := [\<lparr>rvalue = [], present = True\<rparr>, \<lparr>rvalue = [], present = False\<rparr>],
                 arg := []\<rparr>,
      [ExpectedValue ''-a/--long-a='', MandatoryMissing ''-b/--long-b''])"
  by code_simp

theorem missing_value_at_end_witness:
  "distinctNames (opt testParser) \<and> 0 < length (opt testParser)
   \<and> shortName (opt testParser ! 0) = ''a'' \<and> optType (opt testParser ! 0) = OptValue
   \<and> expectVal (parseLoop (opt testParser) (initState (opt testParser)) (argQueue 2 [''prog'', ''-a''])) = 0
   \<and> parse testParser 2 [''prog'', ''-a''] =
       (False,
        testParser\<lparr>result := [\<lparr>rvalue = [], present = True\<rparr>, \<lparr>rvalue = [], present = False\<rparr>],
                   arg := []\<rparr>,
        [ExpectedValue ''-a/--long-a='', MandatoryMissing ''-b/--long-b''])"
proof -
  have h: "distinctNames (opt testParser)" "0 < length (opt testParser)"
    "shortName (opt testParser ! 0) = ''a''" "optType (opt testParser ! 0) = OptValue"
    by (simp_all add: testParser_def optA_def optB_def distinctNames_def)
  show ?thesis
    using h missing_value_at_end [OF h, of "''prog''"] parse_minus_a
    by simp
qed

section \<open>A value option whose value is never supplied\<close>

text \<open>The option a token is matched with, and a token that names no option.\<close>

lemma matchedIndex_bound: "matchedIndex opts tok = Some j \<Longrightarrow> j < length opts"
proof -
  have b: "\<And>P. find_if P opts \<noteq> length opts \<Longrightarrow> find_if P opts < length opts"
    using find_if_le [of _ opts] by (simp add: le_neq_implies_less)
  assume "matchedIndex opts tok = Some j"
  then show ?thesis
    by (auto simp: matchedIndex_def Let_def b split: option.splits smatch.splits if_splits)
qed

lemma matchedIndex_plain: "regex_match tok = None \<Longrightarrow> matchedIndex opts tok = None"
  by (simp add: matchedIndex_def)

lemma parseToken_unmatched:
  "regex_match tok \<noteq> None \<Longrightarrow> matchedIndex opts tok = None \<Longrightarrow>
   parseToken opts st tok =
     (let st1 = (if expectVal st \<ge> 0
                 then st\<lparr>cerr := cerr st @
                           [ExpectedValueGotOption (optName (opts ! nat (expectVal st))) tok],
                         expectVal := - 1, isCorrect := False\<rparr>
                 else st)
      in st1\<lparr>cerr := cerr st1 @ [UnknownOption tok]\<rparr>)"
  by (auto simp: parseToken_def matchedIndex_def foundOption_def Let_def
           split: option.splits smatch.splits if_splits)

text \<open>
  An invariant of the loop for the option of index \<open>i\<close>, when no token gives it an
  inline value and every token matched with it is followed by an option token or by
  the end of the queue: its value stays what it was, a token matched with it marks
  it present, and \<open>expectVal\<close> is \<open>i\<close> only right after such a token.
\<close>

lemma parseToken_unsupplied:
  assumes i: "i < length opts" "optType (opts ! i) = OptValue"
    and len: "length (st_result st) = length opts"
    and d: "rvalue (st_result st ! i) = d"
    and e: "expectVal st = int i \<longrightarrow> regex_match tok \<noteq> None"
    and m: "matchedIndex opts tok = Some i \<longrightarrow> inlineValue tok = None"
  shows "rvalue (st_result (parseToken opts st tok) ! i) = d
         \<and> (present (st_result st ! i) \<longrightarrow> present (st_result (parseToken opts st tok) ! i))
         \<and> (matchedIndex opts tok = Some i \<longrightarrow> present (st_result (parseToken opts st tok) ! i))
         \<and> (expectVal (parseToken opts st tok) = int i \<longrightarrow> matchedIndex opts tok = Some i)"
proof (cases "regex_match tok = None")
  case True
  then have ne: "expectVal st \<noteq> int i" using e by auto
  then have "0 \<le> expectVal st \<Longrightarrow> nat (expectVal st) \<noteq> i" by auto
  then show ?thesis using True d ne i(1)
    by (auto simp: parseToken_plain matchedIndex_plain)
next
  case False
  show ?thesis
  proof (cases "matchedIndex opts tok")
    case None
    then show ?thesis using False d i(1)
      by (auto simp: parseToken_unmatched Let_def)
  next
    case (Some j)
    then have j: "j < length opts" by (rule matchedIndex_bound)
    show ?thesis
    proof (cases "j = i")
      case True
      then show ?thesis using Some m d i len
        by (simp add: parseToken_matched [OF Some] Let_def)
    next
      case False
      then show ?thesis using Some d i len j
        by (auto simp: parseToken_matched [OF Some] Let_def split: option.splits)
    qed
  qed
qed

lemma parseLoop_unsupplied:
  assumes i: "i < length opts" "optType (opts ! i) = OptValue"
  shows "length (st_result st) = length opts \<Longrightarrow> rvalue (st_result st ! i) = d \<Longrightarrow>
     (expectVal st = int i \<longrightarrow> q = [] \<or> regex_match (hd q) \<noteq> None) \<Longrightarrow>
     (\<forall>k<length q. matchedIndex opts (q ! k) = Some i \<longrightarrow>
         inlineValue (q ! k) = None \<and> (Suc k < length q \<longrightarrow> regex_match (q ! Suc k) \<noteq> None)) \<Longrightarrow>
     rvalue (st_result (parseLoop opts st q) ! i) = d
     \<and> (present (st_result st ! i) \<or> (\<exists>k<length q. matchedIndex opts (q ! k) = Some i)
          \<longrightarrow> present (st_result (parseLoop opts st q) ! i))"
proof (induction q arbitrary: st)
  case Nil
  then show ?case by simp
next
  case (Cons tok q)
  let ?st' = "parseToken opts st tok"
  have h0: "matchedIndex opts tok = Some i \<longrightarrow>
              inlineValue tok = None \<and> (q \<noteq> [] \<longrightarrow> regex_match (hd q) \<noteq> None)"
    using Cons.prems(4) [rule_format, of 0] by (cases q) auto
  have hs: "\<forall>k<length q. matchedIndex opts (q ! k) = Some i \<longrightarrow>
         inlineValue (q ! k) = None \<and> (Suc k < length q \<longrightarrow> regex_match (q ! Suc k) \<noteq> None)"
  proof (intro allI impI)
    fix k assume "k < length q" "matchedIndex opts (q ! k) = Some i"
    then show "inlineValue (q ! k) = None \<and> (Suc k < length q \<longrightarrow> regex_match (q ! Suc k) \<noteq> None)"
      using Cons.prems(4) [rule_format, of "Suc k"] by simp
  qed
  have e: "expectVal st = int i \<longrightarrow> regex_match tok \<noteq> None"
    using Cons.prems(3) by simp
  have step: "rvalue (st_result ?st' ! i) = d
         \<and> (present (st_result st ! i) \<longrightarrow> present (st_result ?st' ! i))
         \<and> (matchedIndex opts tok = Some i \<longrightarrow> present (st_result ?st' ! i))
         \<and> (expectVal ?st' = int i \<longrightarrow> matchedIndex opts tok = Some i)"
    using i Cons.prems(1,2) e h0 by (intro parseToken_unsupplied) simp_all
  have e': "expectVal ?st' = int i \<longrightarrow> q = [] \<or> regex_match (hd q) \<noteq> None"
    using step h0 by blast
  have IH: "rvalue (st_result (parseLoop opts ?st' q) ! i) = d
     \<and> (present (st_result ?st' ! i) \<or> (\<exists>k<length q. matchedIndex opts (q ! k) = Some i)
          \<longrightarrow> present (st_result (parseLoop opts ?st' q) ! i))"
    using Cons.prems(1) step e' hs by (intro Cons.IH) simp_all
  have ex: "(\<exists>k<length (tok # q). matchedIndex opts ((tok # q) ! k) = Some i)
            \<longleftrightarrow> matchedIndex opts tok = Some i \<or> (\<exists>k<length q. matchedIndex opts (q ! k) = Some i)"
    by (auto simp: less_Suc_eq_0_disj)
  show ?case using IH step unfolding ex by auto
qed


text \<open>\<open>parse\<close> does not change what a name is looked up to.\<close>

lemma optIndex_parse: "optIndex (fst (snd (parse p argc argv))) name = optIndex p name"
  by (simp add: optIndex_def parse_opt)

text \<open>
  Claim C10: take a value option of the registry and a name by which the queries
  find it. If some token of the arguments is matched with the option, no token
  matched with it carries an inline value, and each of them is the last token or is
  followed by a token of the shape of an option (so that the value expected is
  never supplied), then after \<open>parse\<close> the presence query returns true for the
  option and the value query returns its registration default.
\<close>

theorem unsupplied_value_present:
  assumes "i < length (opt p)" "optType (opt p ! i) = OptValue"
    and "optIndex p name = int i"
    and "\<exists>k<length (argQueue argc argv). matchedIndex (opt p) (argQueue argc argv ! k) = Some i"
    and "\<forall>k<length (argQueue argc argv).
           matchedIndex (opt p) (argQueue argc argv ! k) = Some i \<longrightarrow>
             inlineValue (argQueue argc argv ! k) = None \<and>
             (Suc k < length (argQueue argc argv) \<longrightarrow>
                regex_match (argQueue argc argv ! Suc k) \<noteq> None)"
  shows "gotOption (fst (snd (parse p argc argv))) name = Inr True
         \<and> optionValue (fst (snd (parse p argc argv))) name = Inr (defaultVal (opt p ! i))"
proof -
  let ?q = "argQueue argc argv"
  let ?p' = "fst (snd (parse p argc argv))"
  have "rvalue (st_result (parseLoop (opt p) (initState (opt p)) ?q) ! i) = defaultVal (opt p ! i)
     \<and> (present (st_result (initState (opt p)) ! i)
          \<or> (\<exists>k<length ?q. matchedIndex (opt p) (?q ! k) = Some i)
          \<longrightarrow> present (st_result (parseLoop (opt p) (initState (opt p)) ?q) ! i))"
    using assms(1,2,5)
    by (intro parseLoop_unsupplied) (simp_all add: initState_simps initResults_eq)
  then have l: "rvalue (st_result (parseLoop (opt p) (initState (opt p)) ?q) ! i) = defaultVal (opt p ! i)"
    "present (st_result (parseLoop (opt p) (initState (opt p)) ?q) ! i)"
    using assms(4) by blast+
  have r: "result ?p' = st_result (parseLoop (opt p) (initState (opt p)) ?q)"
    by (simp add: parse_def Let_def parseState_def)
  have len: "length (result ?p') = length (opt ?p')"
    by (simp add: length_parse_result parse_opt)
  have ix: "optIndex ?p' name = int i"
    by (simp add: optIndex_parse assms(3))
  have "gotOption ?p' name = Inr (present (result ?p' ! i))"
    and "optionValue ?p' name = Inr (rvalue (result ?p' ! i))"
    using len ix by (simp_all add: gotOption_def optionValue_def strTo_def Let_def)
  then show ?thesis
    using l unfolding r by simp
qed

text \<open>
  The theorem on the parser of the test program: the value expected by \<open>-a\<close> is
  given up at the option \<open>-b\<close>, and is still expected when the arguments end.
\<close>

lemma parse_a_b:
  "parse testParser 3 [''prog'', ''-a'', ''-b''] =
     (False,
      testParser\<lparr>result := [\<lparr>rvalue = [], present = True\<rparr>, \<lparr>rvalue = [], present = True\<rparr>],
                 arg := []\<rparr>,
      [ExpectedValueGotOption ''-a/--long-a='' ''-b''])"
  by code_simp

lemma regex_minus_b: "regex_match ''-b'' = Some (ShortMatch ''b'' None)"
  by (simp add: regex_match_short isAlpha_def)

theorem unsupplied_value_present_witness:
  "gotOption (fst (snd (parse testParser 3 [''prog'', ''-a'', ''-b'']))) ''a'' = Inr True
   \<and> optionValue (fst (snd (parse testParser 3 [''prog'', ''-a'', ''-b'']))) ''a'' = Inr []
   \<and> gotOption (fst (snd (parse testParser 2 [''prog'', ''-a'']))) ''long-a'' = Inr True
   \<and> optionValue (fst (snd (parse testParser 2 [''prog'', ''-a'']))) ''long-a'' = Inr []
   \<and> snd (snd (parse testParser 3 [''prog'', ''-a'', ''-b'']))
       = [ExpectedValueGotOption ''-a/--long-a='' ''-b'']"
proof -
  have h: "0 < length (opt testParser)" "optType (opt testParser ! 0) = OptValue"
    "optIndex testParser ''a'' = int 0" "optIndex testParser ''long-a'' = int 0"
    by (simp_all add: testParser_def optA_def optB_def optIndex_def)
  have m: "matchedIndex (opt testParser) ''-a'' = Some 0" "inlineValue ''-a'' = None"
    "matchedIndex (opt testParser) ''-b'' = Some 1"
    by (simp_all add: matchedIndex_def inlineValue_def regex_minus_a regex_minus_b
          testParser_def optA_def optB_def)
  have e2: "\<exists>k<length (argQueue 3 [''prog'', ''-a'', ''-b'']).
              matchedIndex (opt testParser) (argQueue 3 [''prog'', ''-a'', ''-b''] ! k) = Some 0"
    unfolding argQueue_three using m(1) by (intro exI [of _ 0]) simp
  have a2: "\<forall>k<length (argQueue 3 [''prog'', ''-a'', ''-b'']).
           matchedIndex (opt testParser) (argQueue 3 [''prog'', ''-a'', ''-b''] ! k) = Some 0 \<longrightarrow>
             inlineValue (argQueue 3 [''prog'', ''-a'', ''-b''] ! k) = None \<and>
             (Suc k < length (argQueue 3 [''prog'', ''-a'', ''-b'']) \<longrightarrow>
                regex_match (argQueue 3 [''prog'', ''-a'', ''-b''] ! Suc k) \<noteq> None)"
    unfolding argQueue_three using m by (simp add: less_Suc_eq regex_minus_b)
  have e1: "\<exists>k<length (argQueue 2 [''prog'', ''-a'']).
              matchedIndex (opt testParser) (argQueue 2 [''prog'', ''-a''] ! k) = Some 0"
    unfolding argQueue_two using m(1) by (intro exI [of _ 0]) simp
  have a1: "\<forall>k<length (argQueue 2 [''prog'', ''-a'']).
           matchedIndex (opt testParser) (argQueue 2 [''prog'', ''-a''] ! k) = Some 0 \<longrightarrow>
             inlineValue (argQueue 2 [''prog'', ''-a''] ! k) = None \<and>
             (Suc k < length (argQueue 2 [''prog'', ''-a'']) \<longrightarrow>
                regex_match (argQueue 2 [''prog'', ''-a''] ! Suc k) \<noteq> None)"
    unfolding argQueue_two using m by simp
  have d: "defaultVal (opt testParser ! 0) = []"
    by (simp add: testParser_def optA_def)
  have w: "snd (snd (parse testParser 3 [''prog'', ''-a'', ''-b'']))
       = [ExpectedValueGotOption ''-a/--long-a='' ''-b'']"
    by (simp add: parse_a_b)
  show ?thesis
    using unsupplied_value_present [OF h(1,2,3) e2 a2]
          unsupplied_value_present [OF h(1,2,4) e1 a1] w
    unfolding d by simp
qed

section \<open>Two calls of \<open>parse\<close>\<close>

text \<open>
  \<open>parse\<close> does not read the result store and the positional arguments it finds: it
  leaves what the loop builds from the state \<open>initState\<close>.
\<close>

lemma argQueue_one: "argQueue 1 [prog] = []"
  by (simp add: argQueue_def)

lemma parse_ignores_store: "parse (p\<lparr>result := r, arg := a\<rparr>) argc argv = parse p argc argv"
  by (simp add: parse_def Let_def)

lemma parse_leaves:
  "result (fst (snd (parse p argc argv)))
     = st_result (parseLoop (opt p) (initState (opt p)) (argQueue argc argv))
   \<and> arg (fst (snd (parse p argc argv)))
     = st_arg (parseLoop (opt p) (initState (opt p)) (argQueue argc argv))"
  by (simp add: parse_def Let_def parseState_def)

text \<open>
  Claim C9: running \<open>parse\<close> on one argument vector and then on a second one gives
  the same return value, the same parser (result store and positional arguments)
  and the same warnings as running it on the second one alone. Whatever result
  store \<open>r\<close> and positional arguments \<open>a\<close> the parser holds when \<open>parse\<close> is called,
  the call returns what it returns without them: the store and the positional
  arguments it leaves are those the loop builds from a store holding every
  option's default value with \<open>present\<close> false and from no positional arguments.
  In particular, parsing no token at all leaves every option at its default and
  not present, and no positional argument.
\<close>

theorem parse_twice:
  "parse (fst (snd (parse p argc1 argv1))) argc2 argv2 = parse p argc2 argv2
   \<and> st_result (initState (opt (fst (snd (parse p argc1 argv1)))))
       = map (\<lambda>ob. \<lparr>rvalue = defaultVal ob, present = False\<rparr>) (opt p)
   \<and> st_arg (initState (opt (fst (snd (parse p argc1 argv1))))) = []
   \<and> parse (p\<lparr>result := r, arg := a\<rparr>) argc2 argv2 = parse p argc2 argv2
   \<and> result (fst (snd (parse (p\<lparr>result := r, arg := a\<rparr>) argc2 argv2)))
       = st_result (parseLoop (opt p) (initState (opt p)) (argQueue argc2 argv2))
   \<and> arg (fst (snd (parse (p\<lparr>result := r, arg := a\<rparr>) argc2 argv2)))
       = st_arg (parseLoop (opt p) (initState (opt p)) (argQueue argc2 argv2))
   \<and> result (fst (snd (parse (p\<lparr>result := r, arg := a\<rparr>) 1 [prog])))
       = map (\<lambda>ob. \<lparr>rvalue = defaultVal ob, present = False\<rparr>) (opt p)
   \<and> arg (fst (snd (parse (p\<lparr>result := r, arg := a\<rparr>) 1 [prog]))) = []"
proof (intro conjI)
  show "parse (fst (snd (parse p argc1 argv1))) argc2 argv2 = parse p argc2 argv2"
    by (simp add: parse_def Let_def)
  show "st_result (initState (opt (fst (snd (parse p argc1 argv1)))))
       = map (\<lambda>ob. \<lparr>rvalue = defaultVal ob, present = False\<rparr>) (opt p)"
    by (simp add: parse_opt initState_simps initResults_eq)
  show "st_arg (initState (opt (fst (snd (parse p argc1 argv1))))) = []"
    by (simp add: initState_simps)
  show "parse (p\<lparr>result := r, arg := a\<rparr>) argc2 argv2 = parse p argc2 argv2"
    by (rule parse_ignores_store)
  show "result (fst (snd (parse (p\<lparr>result := r, arg := a\<rparr>) argc2 argv2)))
       = st_result (parseLoop (opt p) (initState (opt p)) (argQueue argc2 argv2))"
    by (simp add: parse_ignores_store parse_leaves)
  show "arg (fst (snd (parse (p\<lparr>result := r, arg := a\<rparr>) argc2 argv2)))
       = st_arg (parseLoop (opt p) (initState (opt p)) (argQueue argc2 argv2))"
    by (simp add: parse_ignores_store parse_leaves)
  show "result (fst (snd (parse (p\<lparr>result := r, arg := a\<rparr>) 1 [prog])))
       = map (\<lambda>ob. \<lparr>rvalue = defaultVal ob, present = False\<rparr>) (opt p)"
    by (simp add: parse_ignores_store parse_leaves argQueue_one initState_simps initResults_eq)
  show "arg (fst (snd (parse (p\<lparr>result := r, arg := a\<rparr>) 1 [prog]))) = []"
    by (simp add: parse_ignores_store parse_leaves argQueue_one initState_simps)
qed

text \<open>
  The theorem on the parser of the test program: \<open>-b x\<close> parsed after \<open>-a foo\<close>
  leaves nothing of the first call (option \<open>a\<close> is not present and has its default,
  the only positional argument is \<open>x\<close>), and parsing no token after either call
  leaves the defaults and no positional argument.
\<close>

lemma parse_after_a_foo:
  "parse (fst (snd (parse testParser 3 [''prog'', ''-a'', ''foo'']))) 3 [''prog'', ''-b'', ''x''] =
     (False,
      testParser\<lparr>result := [\<lparr>rvalue = [], present = False\<rparr>, \<lparr>rvalue = [], present = True\<rparr>],
                 arg := [''x'']\<rparr>,
      [MandatoryMissing ''-a/--long-a=''])"
  by code_simp

theorem parse_twice_witness:
  "parse (fst (snd (parse testParser 3 [''prog'', ''-a'', ''foo'']))) 3 [''prog'', ''-b'', ''x'']
     = parse testParser 3 [''prog'', ''-b'', ''x'']
   \<and> parse testParser 3 [''prog'', ''-b'', ''x''] =
     (False,
      testParser\<lparr>result := [\<lparr>rvalue = [], present = False\<rparr>, \<lparr>rvalue = [], present = True\<rparr>],
                 arg := [''x'']\<rparr>,
      [MandatoryMissing ''-a/--long-a=''])
   \<and> result (fst (snd (parse (fst (snd (parse testParser 3 [''prog'', ''-a'', ''foo'']))) 1 [''prog''])))
       = [\<lparr>rvalue = [], present = False\<rparr>, \<lparr>rvalue = [], present = False\<rparr>]
   \<and> arg (fst (snd (parse (fst (snd (parse testParser 3 [''prog'', ''-b'', ''x'']))) 1 [''prog''])))
       = []"
proof -
  have s1: "fst (snd (parse testParser 3 [''prog'', ''-a'', ''foo'']))
        = testParser\<lparr>result := [\<lparr>rvalue = ''foo'', present = True\<rparr>, \<lparr>rvalue = [], present = False\<rparr>],
                 arg := []\<rparr>"
    by (simp add: parse_a_foo)
  have o: "map (\<lambda>ob. \<lparr>rvalue = defaultVal ob, present = False\<rparr>) (opt testParser)
        = [\<lparr>rvalue = [], present = False\<rparr>, \<lparr>rvalue = [], present = False\<rparr>]"
    by (simp add: testParser_def optA_def optB_def)
  have t: "parse testParser 3 [''prog'', ''-b'', ''x''] =
     (False,
      testParser\<lparr>result := [\<lparr>rvalue = [], present = False\<rparr>, \<lparr>rvalue = [], present = True\<rparr>],
                 arg := [''x'']\<rparr>,
      [MandatoryMissing ''-a/--long-a=''])"
    using parse_twice [of testParser 3 "[''prog'', ''-a'', ''foo'']" 3 "[''prog'', ''-b'', ''x'']"]
      parse_after_a_foo by simp
  show ?thesis
    using parse_twice [where p = testParser and ?argc1.0 = 3 and ?argv1.0 = "[''prog'', ''-a'', ''foo'']"
            and ?argc2.0 = 3 and ?argv2.0 = "[''prog'', ''-b'', ''x'']" and prog = "''prog''"
            and r = "[\<lparr>rvalue = ''foo'', present = True\<rparr>, \<lparr>rvalue = [], present = False\<rparr>]"
            and a = "[]"]
          parse_twice [where p = testParser and ?argc1.0 = 3 and ?argv1.0 = "[''prog'', ''-a'', ''foo'']"
            and ?argc2.0 = 3 and ?argv2.0 = "[''prog'', ''-b'', ''x'']" and prog = "''prog''"
            and r = "[\<lparr>rvalue = [], present = False\<rparr>, \<lparr>rvalue = [], present = True\<rparr>]"
            and a = "[''x'']"]
    unfolding s1 t o by simp
qed

end
